theory Spec2Isabelle
  imports Complex_Main "HOL-Library.Sublist" "HOL-Library.AList"
begin

text \<open>
  A model of the two Streamlit scripts \<open>app.py\<close> and \<open>app_deploy.py\<close>: text extraction
  by OCR, document processing with its on-disk cache, retrieval and answer generation.

  The scripts are glue around libraries. The rasteriser, the OCR engine, the text splitter,
  the embedding model, the float32 distance kernel of the vector index and the completion
  service are parameters of the model (the record \<open>env\<close>); nothing is assumed about what they
  return. The rest of the behaviour of the vector index (\<open>faiss.IndexFlatL2\<close>), and that of
  array shapes, of \<open>pickle\<close> and of Python's strings, lists and paths is written out, since
  the scripts' own behaviour depends on it. Effects are explicit:
  every function takes the world and returns it with the result, and an exception is a
  result \<open>Inl\<close>.
\<close>

section \<open>Python values used by the application\<close>

text \<open>
  A Python \<open>str\<close> is a sequence of Unicode code points; \<open>len\<close>, \<open>in\<close>, \<open>join\<close> and
  \<open>strip\<close> all work on code points, so a string is modelled as a list of code-point numbers.
  ASCII literals of the source are written with \<open>ascii\<close>, everything else numerically.
\<close>

type_synonym str = "nat list"

definition ascii :: "string \<Rightarrow> str" where
  "ascii s = map of_char s"

text \<open>\<open>sub in s\<close> on strings: \<open>sub\<close> occurs in \<open>s\<close> as a contiguous piece.\<close>

fun contains :: "str \<Rightarrow> str \<Rightarrow> bool" where
  "contains sub [] = (sub = [])"
| "contains sub (c # s) = (prefix sub (c # s) \<or> contains sub s)"

text \<open>\<open>sep.join(xs)\<close>.\<close>

fun join :: "str \<Rightarrow> str list \<Rightarrow> str" where
  "join sep [] = []"
| "join sep [x] = x"
| "join sep (x # y # ys) = x @ sep @ join sep (y # ys)"

text \<open>\<open>str.isspace\<close> on one code point, and \<open>s.strip()\<close> with no argument.\<close>

definition isspace :: "nat \<Rightarrow> bool" where
  "isspace c \<longleftrightarrow>
     (9 \<le> c \<and> c \<le> 13) \<or> (28 \<le> c \<and> c \<le> 32) \<or> c = 133 \<or> c = 160 \<or> c = 5760 \<or>
     (8192 \<le> c \<and> c \<le> 8202) \<or> c = 8232 \<or> c = 8233 \<or> c = 8239 \<or> c = 8287 \<or> c = 12288"

definition strip :: "str \<Rightarrow> str" where
  "strip s = rev (dropWhile isspace (rev (dropWhile isspace s)))"

text \<open>
  The exceptions that can leave the modelled functions. \<open>StopException\<close> is what
  \<open>st.stop()\<close> raises; it is a \<open>BaseException\<close>, so \<open>except Exception\<close> does not catch it.
\<close>

datatype exn = StopException | IndexError | AssertionError | ValueError | UnpicklingError

text \<open>\<open>xs[i]\<close> on a list or tuple: a negative index counts from the end.\<close>

definition getitem :: "'a list \<Rightarrow> int \<Rightarrow> exn + 'a" where
  "getitem xs i =
     (if 0 \<le> i \<and> i < int (length xs) then Inr (xs ! nat i)
      else if i < 0 \<and> - int (length xs) \<le> i then Inr (xs ! nat (int (length xs) + i))
      else Inl IndexError)"

text \<open>\<open>[xs[i] for i in idxs]\<close>: the first failing lookup raises.\<close>

fun getitems :: "'a list \<Rightarrow> int list \<Rightarrow> exn + 'a list" where
  "getitems xs [] = Inr []"
| "getitems xs (i # idxs) =
     (case getitem xs i of
        Inl e \<Rightarrow> Inl e
      | Inr x \<Rightarrow> (case getitems xs idxs of Inl e \<Rightarrow> Inl e | Inr rest \<Rightarrow> Inr (x # rest)))"

subsection \<open>Paths\<close>

text \<open>\<open>os.path.basename\<close> and two-argument \<open>os.path.join\<close>, as \<open>posixpath\<close> defines them
  (47 is the slash).\<close>

definition basename :: "str \<Rightarrow> str" where
  "basename p = rev (takeWhile (\<lambda>c. c \<noteq> 47) (rev p))"

definition path_join :: "str \<Rightarrow> str \<Rightarrow> str" where
  "path_join a b =
     (if prefix [47] b then b
      else if a = [] \<or> suffix [47] a then a @ b
      else a @ [47] @ b)"

section \<open>The vector index (faiss.IndexFlatL2)\<close>

text \<open>
  The index is the library's exact L2 index: it stores the vectors in insertion order and
  answers a query by brute force, comparing the distances that its kernel \<open>fvec_L2sqr\<close>
  computes in 32-bit floating point. The components of vectors and the distances are values
  of one linearly ordered type; the kernel is a parameter of the search, so nothing is
  assumed about how it rounds. A batch of vectors (a two-dimensional array) is a list of
  rows of one length; a list of rows of different lengths is no array, and \<open>add\<close> and
  \<open>search\<close> reject it as they reject a wrong dimension.
\<close>

record 'a index =
  ix_d :: nat
  ix_xb :: "'a list list"

definition IndexFlatL2 :: "nat \<Rightarrow> 'a index" where
  "IndexFlatL2 dimension = \<lparr>ix_d = dimension, ix_xb = []\<rparr>"

definition ntotal :: "'a index \<Rightarrow> nat" where
  "ntotal ix = length (ix_xb ix)"

text \<open>\<open>index.add(x)\<close> asserts that the rows have the index's dimension and appends them.\<close>

definition add :: "'a index \<Rightarrow> 'a list list \<Rightarrow> exn + 'a index" where
  "add ix x =
     (if list_all (\<lambda>row. length row = ix_d ix) x then Inr (ix\<lparr>ix_xb := ix_xb ix @ x\<rparr>)
      else Inl AssertionError)"

text \<open>\<open>a.shape\<close> of a batch: an empty batch has the one-element shape \<open>(0,)\<close>.\<close>

definition shape :: "'a list list \<Rightarrow> nat list" where
  "shape a = (case a of [] \<Rightarrow> [0] | row # _ \<Rightarrow> [length a, length row])"

text \<open>
  The labels of the (at most \<open>k\<close>) stored vectors nearest to \<open>q\<close> by the computed distance
  \<open>kern\<close>, nearest first. Among vectors at the same computed distance the library's scan
  keeps the one it met first when \<open>k = 1\<close> and fixes no order otherwise; here the lower label
  comes first.
\<close>

definition knn ::
  "('a list \<Rightarrow> 'a list \<Rightarrow> 'a::linorder) \<Rightarrow> 'a index \<Rightarrow> 'a list \<Rightarrow> nat \<Rightarrow> nat list" where
  "knn kern ix q k = take k (sort_key (\<lambda>i. kern q (ix_xb ix ! i)) [0..<ntotal ix])"

text \<open>
  One row of the result of \<open>search\<close>: distances and labels of the nearest vectors; when fewer
  than \<open>k\<close> vectors are stored, the remaining slots hold the label \<open>-1\<close> (and the largest
  float as distance, here \<open>None\<close>).
\<close>

definition search_row ::
  "('a list \<Rightarrow> 'a list \<Rightarrow> 'a::linorder) \<Rightarrow> 'a index \<Rightarrow> nat \<Rightarrow> 'a list \<Rightarrow>
     'a option list \<times> int list" where
  "search_row kern ix k q =
     (let near = knn kern ix q k; missing = k - length near
      in (map (\<lambda>i. Some (kern q (ix_xb ix ! i))) near @ replicate missing None,
          map int near @ replicate missing (- 1)))"

text \<open>
  \<open>D, I = index.search(x, k)\<close> for a batch \<open>x\<close> of queries: the wrapper unpacks
  \<open>n, d = x.shape\<close> and asserts \<open>d == self.d\<close> and \<open>k > 0\<close>.
\<close>

definition search ::
  "('a list \<Rightarrow> 'a list \<Rightarrow> 'a::linorder) \<Rightarrow> 'a index \<Rightarrow> 'a list list \<Rightarrow> nat \<Rightarrow>
     exn + ('a option list list \<times> int list list)" where
  "search kern ix x k =
     (case shape x of
        [n, d] \<Rightarrow>
          (if d \<noteq> ix_d ix \<or> \<not> list_all (\<lambda>q. length q = d) x \<or> k = 0 then Inl AssertionError
           else Inr (map (\<lambda>q. fst (search_row kern ix k q)) x,
                     map (\<lambda>q. snd (search_row kern ix k q)) x))
      | _ \<Rightarrow> Inl ValueError)"

subsection \<open>Two kernels on vectors of integers\<close>

text \<open>
  \<open>exact_l2sqr\<close> is the squared Euclidean distance itself. \<open>fvec_L2sqr_ref\<close> is the
  library's scalar reference loop \<open>tmp = x[i] - y[i]; res += tmp * tmp\<close> in float32
  arithmetic, on floats whose values are integers: each operation gives its exact result
  rounded to 24 significant bits, ties to even (\<open>f32\<close>; the magnitudes met here are far below
  the largest float).
\<close>

definition exact_l2sqr :: "'a::linordered_idom list \<Rightarrow> 'a list \<Rightarrow> 'a" where
  "exact_l2sqr x y = sum_list (map2 (\<lambda>a b. (a - b) * (a - b)) x y)"

fun bit_length :: "nat \<Rightarrow> nat" where
  "bit_length n = (if n = 0 then 0 else Suc (bit_length (n div 2)))"

declare bit_length.simps [simp del]

definition f32 :: "int \<Rightarrow> int" where
  "f32 n =
     (let a = nat \<bar>n\<bar>; u = 2 ^ (bit_length a - 24); m = a div u; r = a mod u
      in sgn n * int (if u < 2 * r \<or> (2 * r = u \<and> odd m) then (m + 1) * u else m * u))"

definition fvec_L2sqr_ref :: "int list \<Rightarrow> int list \<Rightarrow> int" where
  "fvec_L2sqr_ref x y =
     foldl (\<lambda>res (a, b). let tmp = f32 (a - b) in f32 (res + f32 (tmp * tmp))) 0 (zip x y)"

section \<open>External collaborators and the world\<close>

text \<open>Cache files: a pickled (chunks, index) pair, or any other content.\<close>

datatype 'a cache_file = Pickle "str list \<times> 'a index" | Garbage

text \<open>\<open>pickle.load\<close> of a cache file.\<close>

fun pickle_load :: "'a cache_file \<Rightarrow> exn + (str list \<times> 'a index)" where
  "pickle_load (Pickle pr) = Inr pr"
| "pickle_load Garbage = Inl UnpicklingError"

text \<open>
  What Streamlit shows, in order: headers, messages, progress updates and texts, in the main
  column or the sidebar. Spinners and input widgets are not recorded.
\<close>

datatype ui =
    St_header str | St_subheader str | St_error str | St_warning str | St_markdown str
  | St_success str | St_progress nat nat | St_text str | St_caption str

text \<open>The splitter object built in \<open>process_pdf\<close> (\<open>length_function\<close> is \<open>len\<close>).\<close>

record splitter =
  chunk_size :: nat
  chunk_overlap :: nat
  separators :: "str list"

text \<open>The chat-completion request of \<open>query_openai\<close>.\<close>

record message =
  msg_role :: str
  msg_content :: str

record request =
  rq_model :: str
  rq_messages :: "message list"
  rq_temperature :: rat
  rq_max_tokens :: nat

text \<open>The calls made to the libraries, in order (what a call-counting mock would see).\<close>

datatype call =
    Call_convert_from_path str
  | Call_image_to_string nat
  | Call_split_text str
  | Call_encode "str list"
  | Call_search nat
  | Call_chat_create request

text \<open>What \<open>pytesseract.image_to_string\<close> may raise, with the text of \<open>str(e)\<close>.\<close>

datatype ocr_error = TesseractError str | OtherError str

text \<open>
  The libraries the application calls, as functions of their arguments:
  \<^item> \<open>convert_from_path pdf_path dpi\<close>: the page images, or \<open>str(e)\<close> of the exception;
  \<^item> \<open>image_to_string image config\<close>: the page text, or the error raised;
  \<^item> \<open>split_text splitter text\<close>: the chunks of the recursive character splitter;
  \<^item> \<open>embed s\<close>: the embedding of one string (\<open>model.encode\<close> maps it over a batch);
  \<^item> \<open>fvec_L2sqr x y\<close>: the squared distance of two vectors as the index's kernel computes it;
  \<^item> \<open>chat_create api_key request\<close>: the \<open>message.content\<close> of each returned choice, or
    \<open>str(e)\<close> of the exception raised by the client or the service.
\<close>

record ('i, 'a) env =
  convert_from_path :: "str \<Rightarrow> nat \<Rightarrow> str + 'i list"
  image_to_string :: "'i \<Rightarrow> str \<Rightarrow> ocr_error + str"
  split_text :: "splitter \<Rightarrow> str \<Rightarrow> str list"
  embed :: "str \<Rightarrow> 'a list"
  fvec_L2sqr :: "'a list \<Rightarrow> 'a list \<Rightarrow> 'a"
  chat_create :: "str option \<Rightarrow> request \<Rightarrow> str + str option list"

definition encode :: "('i, 'a) env \<Rightarrow> str list \<Rightarrow> 'a list list" where
  "encode env sentences = map (embed env) sentences"

text \<open>
  The state a run works on: the files (path and content, looked up with \<open>map_of\<close>), the
  environment variable \<open>OPENAI_API_KEY\<close>, the screen and the log of library calls.
\<close>

record 'a world =
  files :: "(str \<times> 'a cache_file) list"
  api_key_env :: "str option"
  screen :: "ui list"
  calls :: "call list"

definition st :: "ui \<Rightarrow> 'a world \<Rightarrow> 'a world" where
  "st u w = w\<lparr>screen := screen w @ [u]\<rparr>"

definition called :: "call \<Rightarrow> 'a world \<Rightarrow> 'a world" where
  "called c w = w\<lparr>calls := calls w @ [c]\<rparr>"

section \<open>Text extraction\<close>

text \<open>
  The two modules of the repository differ in the OCR configuration and in the handler of
  \<open>TesseractError\<close>: \<open>app.py\<close> always runs with the Bengali profile, \<open>app_deploy.py\<close> with
  the module-level \<open>TESSERACT_CONFIG\<close> chosen at start-up.
\<close>

datatype module = App | Deploy str

definition ben_config :: str where
  "ben_config = ascii ''--oem 3 --psm 6 -l ben''"

definition eng_config :: str where
  "eng_config = ascii ''--oem 3 --psm 6 -l eng''"

fun tesseract_config :: "module \<Rightarrow> str" where
  "tesseract_config App = ben_config"
| "tesseract_config (Deploy config) = config"

definition bengali_missing_error :: str where
  "bengali_missing_error =
     [9888, 65039] @ ascii '' Bengali language data not found for Tesseract!''"

definition bengali_fix_markdown :: str where
  "bengali_fix_markdown =
     [10] @ ascii ''                        **To fix this issue:**'' @
     [10] @ ascii ''                        1. Run the provided script as Administrator: '' @
     [96] @ ascii ''install_bengali_lang.ps1'' @ [96] @
     [10] @ ascii ''                        2. Or manually download Bengali language data from: '' @
     ascii ''https://github.com/tesseract-ocr/tessdata/raw/main/ben.traineddata'' @
     [10] @ ascii ''                        3. Place it in: '' @
     [96] @ ascii ''C:'' @ [92] @ ascii ''Program Files'' @ [92] @ ascii ''Tesseract-OCR'' @
     [92] @ ascii ''tessdata'' @ [92] @ ascii ''ben.traineddata'' @ [96] @
     [10] @ ascii ''                        4. Restart your application'' @
     [10] @ ascii ''                        ''"

text \<open>The \<open>except pytesseract.TesseractError\<close> handler: what is shown before \<open>st.stop()\<close>.\<close>

fun tesseract_failure :: "module \<Rightarrow> str \<Rightarrow> ui list" where
  "tesseract_failure App e =
     (if contains (ascii ''ben'') e
      then [St_error bengali_missing_error, St_markdown bengali_fix_markdown]
      else [St_error (ascii ''Tesseract error: '' @ e)])"
| "tesseract_failure (Deploy config) e = [St_error (ascii ''Tesseract error: '' @ e)]"

text \<open>How the page loop is left early: by \<open>st.stop()\<close>, or by an exception on its way to
  the outer handler.\<close>

datatype abort = Stopped | Raised str

text \<open>The loop \<open>for i, image in enumerate(images)\<close>; \<open>n\<close> is \<open>len(images)\<close>.\<close>

fun ocr_pages ::
  "module \<Rightarrow> ('i, 'a) env \<Rightarrow> nat \<Rightarrow> nat \<Rightarrow> 'i list \<Rightarrow> str \<Rightarrow> 'a world \<Rightarrow> (abort + str) \<times> 'a world"
where
  "ocr_pages m env n i [] full_text w = (Inr full_text, w)"
| "ocr_pages m env n i (img # images) full_text w =
     (let w1 = called (Call_image_to_string i) w in
      case image_to_string env img (tesseract_config m) of
        Inr text \<Rightarrow>
          ocr_pages m env n (i + 1) images (full_text @ text @ [10, 10])
            (st (St_progress (i + 1) n) w1)
      | Inl (TesseractError e) \<Rightarrow>
          (Inl Stopped, w1\<lparr>screen := screen w1 @ tesseract_failure m e\<rparr>)
      | Inl (OtherError e) \<Rightarrow> (Inl (Raised e), w1))"

definition extract_text_from_pdf ::
  "module \<Rightarrow> ('i, 'a) env \<Rightarrow> str \<Rightarrow> 'a world \<Rightarrow> (exn + str) \<times> 'a world"
where
  "extract_text_from_pdf m env pdf_path w =
     (let w0 = called (Call_convert_from_path pdf_path) w in
      case convert_from_path env pdf_path 300 of
        Inl e \<Rightarrow> (Inl StopException, st (St_error (ascii ''Error processing PDF: '' @ e)) w0)
      | Inr images \<Rightarrow>
          (case ocr_pages m env (length images) 0 images [] (st (St_progress 0 1) w0) of
             (Inl Stopped, w1) \<Rightarrow> (Inl StopException, w1)
           | (Inl (Raised e), w1) \<Rightarrow>
               (Inl StopException, st (St_error (ascii ''Error processing PDF: '' @ e)) w1)
           | (Inr full_text, w1) \<Rightarrow>
               (Inr full_text, st (St_success (ascii ''Text extraction complete!'')) w1)))"

section \<open>Document processing and the cache\<close>

definition text_splitter :: splitter where
  "text_splitter =
     \<lparr>chunk_size = 500, chunk_overlap = 100,
      separators = [[10, 10], [2404], [10], [32], []]\<rparr>"

definition cache_dir :: str where
  "cache_dir = ascii ''cache''"

definition cache_path :: "str \<Rightarrow> str" where
  "cache_path pdf_path = path_join cache_dir (basename pdf_path @ ascii ''.pkl'')"

text \<open>
  \<open>process_pdf\<close>, the same in both modules. Creating the cache directory and opening the
  cache file are taken to succeed; \<open>pickle.dump\<close> stores the pair as it is.
\<close>

definition process_pdf ::
  "module \<Rightarrow> ('i, 'a) env \<Rightarrow> str \<Rightarrow> 'a world \<Rightarrow> (exn + (str list \<times> 'a index)) \<times> 'a world"
where
  "process_pdf m env pdf_path w =
     (case map_of (files w) (cache_path pdf_path) of
        Some f \<Rightarrow> (pickle_load f, w)
      | None \<Rightarrow>
          (case extract_text_from_pdf m env pdf_path w of
             (Inl e, w1) \<Rightarrow> (Inl e, w1)
           | (Inr text, w1) \<Rightarrow>
               (let chunks = split_text env text_splitter text;
                    w2 = called (Call_split_text text) w1;
                    embeddings = encode env chunks;
                    w3 = called (Call_encode chunks) w2
                in case getitem (shape embeddings) 1 of
                     Inl e \<Rightarrow> (Inl e, w3)
                   | Inr dimension \<Rightarrow>
                       (case add (IndexFlatL2 dimension) embeddings of
                          Inl e \<Rightarrow> (Inl e, w3)
                        | Inr index \<Rightarrow>
                            (Inr (chunks, index),
                             w3\<lparr>files :=
                                  AList.update (cache_path pdf_path) (Pickle (chunks, index))
                                    (files w3)\<rparr>)))))"

section \<open>Answer generation\<close>

definition system_instruction :: str where
  "system_instruction = ascii ''You are a helpful assistant that answers questions in Bangla.''"

definition completion_request :: "str \<Rightarrow> request" where
  "completion_request prompt =
     \<lparr>rq_model = ascii ''gpt-4o'',
      rq_messages =
        [\<lparr>msg_role = ascii ''system'', msg_content = system_instruction\<rparr>,
         \<lparr>msg_role = ascii ''user'', msg_content = prompt\<rparr>],
      rq_temperature = 2 / 10,
      rq_max_tokens = 500\<rparr>"

text \<open>The texts of the two exceptions that the expression
  \<open>response.choices[0].message.content.strip()\<close> can raise.\<close>

definition index_error_text :: str where
  "index_error_text = ascii ''list index out of range''"

definition attribute_error_text :: str where
  "attribute_error_text =
     [39] @ ascii ''NoneType'' @ [39] @ ascii '' object has no attribute '' @
     [39] @ ascii ''strip'' @ [39]"

text \<open>
  \<open>query_openai\<close>, the same in both modules: every exception of the client, of the service
  and of reading the response is caught, reported and turned into \<open>None\<close>.
\<close>

definition query_openai ::
  "('i, 'a) env \<Rightarrow> str \<Rightarrow> 'a world \<Rightarrow> str option \<times> 'a world" where
  "query_openai env prompt w =
     (let w1 = called (Call_chat_create (completion_request prompt)) w in
      case chat_create env (api_key_env w) (completion_request prompt) of
        Inl e \<Rightarrow> (None, st (St_error (ascii ''OpenAI Error: '' @ e)) w1)
      | Inr choices \<Rightarrow>
          (case choices of
             [] \<Rightarrow> (None, st (St_error (ascii ''OpenAI Error: '' @ index_error_text)) w1)
           | content # _ \<Rightarrow>
               (case content of
                  None \<Rightarrow>
                    (None, st (St_error (ascii ''OpenAI Error: '' @ attribute_error_text)) w1)
                | Some s \<Rightarrow> (Some (strip s), w1))))"

section \<open>The question path\<close>

definition bangla_prompt :: "str \<Rightarrow> str \<Rightarrow> str" where
  "bangla_prompt context question =
     [10] @ ascii ''        '' @
     [2472, 2495, 2458, 2503, 2480, 32, 2474, 2509, 2480, 2488, 2457, 2509, 2455, 32,
      2476, 2509, 2479, 2476, 2489, 2494, 2480, 32, 2453, 2480, 2503, 32,
      2474, 2509, 2480, 2486, 2509, 2472, 2503, 2480, 32, 2441, 2468, 2509, 2468, 2480, 32,
      2470, 2494, 2451, 58] @
     [10] @ ascii ''        '' @
     [10] @ ascii ''        '' @ [2474, 2509, 2480, 2488, 2457, 2509, 2455, 58] @
     [10] @ ascii ''        '' @ context @
     [10] @ ascii ''        '' @
     [10] @ ascii ''        '' @ [2474, 2509, 2480, 2486, 2509, 2472, 58, 32] @ question @
     [10] @ ascii ''        '' @ [2441, 2468, 2509, 2468, 2480, 58] @
     [10] @ ascii ''        ''"

definition english_prompt :: "str \<Rightarrow> str \<Rightarrow> str" where
  "english_prompt context question =
     [10] @ ascii ''        Answer the question based on the following context:'' @
     [10] @ ascii ''        '' @
     [10] @ ascii ''        Context:'' @
     [10] @ ascii ''        '' @ context @
     [10] @ ascii ''        '' @
     [10] @ ascii ''        Question: '' @ question @
     [10] @ ascii ''        Answer:'' @
     [10] @ ascii ''        ''"

text \<open>The prompt: \<open>app.py\<close> has the Bangla template only, \<open>app_deploy.py\<close> chooses by
  \<open>'ben' in TESSERACT_CONFIG\<close>.\<close>

fun build_prompt :: "module \<Rightarrow> str \<Rightarrow> str \<Rightarrow> str" where
  "build_prompt App context question = bangla_prompt context question"
| "build_prompt (Deploy config) context question =
     (if contains (ascii ''ben'') config then bangla_prompt context question
      else english_prompt context question)"

text \<open>
  Retrieval: the question is embedded as a batch of one, the index is searched with
  \<open>k=3\<close>, and the chunks at the labels of the first result row are joined with a blank
  line.
\<close>

definition retrieve_context ::
  "('i, 'a::linorder) env \<Rightarrow> str list \<Rightarrow> 'a index \<Rightarrow> str \<Rightarrow> exn + str" where
  "retrieve_context env chunks index question =
     (case search (fvec_L2sqr env) index (encode env [question]) 3 of
        Inl e \<Rightarrow> Inl e
      | Inr (D, I) \<Rightarrow>
          (case getitem I 0 of
             Inl e \<Rightarrow> Inl e
           | Inr I0 \<Rightarrow>
               (case getitems chunks I0 of
                  Inl e \<Rightarrow> Inl e
                | Inr retrieved \<Rightarrow> Inr (join [10, 10] retrieved))))"

text \<open>
  The query interface of the main script, from \<open>if question and openai_api_key\<close> to the
  display of the answer. The value returned is the local variable \<open>answer\<close> (\<open>None\<close> also when
  the branch is not taken).
\<close>

definition query_interface ::
  "module \<Rightarrow> ('i, 'a::linorder) env \<Rightarrow> str list \<Rightarrow> 'a index \<Rightarrow> str \<Rightarrow> str \<Rightarrow> 'a world \<Rightarrow>
     (exn + str option) \<times> 'a world" where
  "query_interface m env chunks index question openai_api_key w =
     (if question \<noteq> [] \<and> openai_api_key \<noteq> [] then
        (let w2 = called (Call_search 3) (called (Call_encode [question]) w)
         in case retrieve_context env chunks index question of
              Inl e \<Rightarrow> (Inl e, w2)
            | Inr context \<Rightarrow>
                (case query_openai env (build_prompt m context question) w2 of
                   (Some answer, w3) \<Rightarrow>
                     (if answer \<noteq> [] then
                        (Inr (Some answer),
                         w3\<lparr>screen := screen w3 @
                           [St_subheader (ascii ''Answer:''), St_success answer,
                            St_text context]\<rparr>)
                      else (Inr (Some answer), w3))
                 | (None, w3) \<Rightarrow> (Inr None, w3)))
      else (Inr None, w))"

definition PDF_PATH :: str where
  "PDF_PATH = path_join (ascii ''data'') (ascii ''bangla_document.pdf'')"

text \<open>The sidebar: a key typed there is exported to the environment.\<close>

definition sidebar_configuration :: "str \<Rightarrow> 'a world \<Rightarrow> 'a world" where
  "sidebar_configuration openai_api_key w =
     (let w0 = st (St_header (ascii ''Configuration'')) w in
      if openai_api_key \<noteq> [] then w0\<lparr>api_key_env := Some openai_api_key\<rparr>
      else st (St_warning (ascii ''Enter OpenAI API key to enable GPT-4o'')) w0)"

text \<open>The footer of the page.\<close>

definition footer :: "'a world \<Rightarrow> 'a world" where
  "footer w =
     w\<lparr>screen := screen w @
       [St_markdown (ascii ''---''),
        St_caption (ascii ''Note: First run will take time for OCR processing. '' @
                    ascii ''Subsequent runs will use cached embeddings.'')]\<rparr>"

text \<open>
  One run of the main script from the sidebar configuration on, that is, once the start-up
  checks have passed, with the PDF file in place (and, in \<open>app_deploy.py\<close>, no file uploaded
  in this run): the document is processed or loaded, the question, if any, is answered, and
  the footer is written.
\<close>

definition main ::
  "module \<Rightarrow> ('i, 'a::linorder) env \<Rightarrow> str \<Rightarrow> str \<Rightarrow> 'a world \<Rightarrow>
     (exn + str option) \<times> 'a world" where
  "main m env openai_api_key question w =
     (case process_pdf m env PDF_PATH (sidebar_configuration openai_api_key w) of
        (Inl e, w1) \<Rightarrow> (Inl e, w1)
      | (Inr (chunks, index), w1) \<Rightarrow>
          (case query_interface m env chunks index question openai_api_key
                  (st (St_subheader (ascii ''Ask questions about the document'')) w1) of
             (Inl e, w2) \<Rightarrow> (Inl e, w2)
           | (Inr answer, w2) \<Rightarrow> (Inr answer, footer w2)))"

section \<open>A concrete scenario\<close>

text \<open>
  A two-page document with fixed OCR output, a splitter that returns a non-empty text as its
  only chunk, a two-component embedding in small integers, the float32 reference kernel,
  and a completion service that accepts one key and answers with the second page,
  surrounded by white space.
\<close>

definition page_one :: str where
  "page_one = [2474, 2509, 2480, 2469, 2478, 32, 2474, 2499, 2487, 2509, 2464, 2494, 2404]"

definition page_two :: str where
  "page_two =
     [2470, 2509, 2476, 2495, 2468, 2496, 2479, 2492, 32, 2474, 2499, 2487, 2509, 2464, 2494,
      2404]"

definition scenario_text :: str where
  "scenario_text = page_one @ [10, 10] @ page_two @ [10, 10]"

definition scenario_question :: str where
  "scenario_question =
     [2470, 2509, 2476, 2495, 2468, 2496, 2479, 2492, 32, 2474, 2499, 2487, 2509, 2464, 2494,
      2479, 2492, 32, 2453, 2496, 32, 2438, 2459, 2503, 63]"

definition valid_key :: str where
  "valid_key = ascii ''sk-valid''"

definition invalid_key_error :: str where
  "invalid_key_error = ascii ''Incorrect API key provided''"

definition scenario_env :: "(nat, int) env" where
  "scenario_env =
     \<lparr>convert_from_path = (\<lambda>pdf_path dpi. Inr [0, 1]),
      image_to_string = (\<lambda>img config. Inr (if img = 0 then page_one else page_two)),
      split_text = (\<lambda>sp t. if t = [] then [] else [t]),
      embed = (\<lambda>s. [int (length s), 1]),
      fvec_L2sqr = fvec_L2sqr_ref,
      chat_create =
        (\<lambda>key rq. if key = Some valid_key then Inr [Some ([32] @ page_two @ [10])]
                   else Inl invalid_key_error)\<rparr>"

definition scenario_doc :: "str list \<times> int index" where
  "scenario_doc = ([scenario_text], \<lparr>ix_d = 2, ix_xb = [[33, 1]]\<rparr>)"

definition fresh_world :: "int world" where
  "fresh_world = \<lparr>files = [], api_key_env = None, screen = [], calls = []\<rparr>"

text \<open>
  The same document when the Bengali language data is missing: the engine reads the first
  page and reports the missing data on the second.
\<close>

definition language_report :: str where
  "language_report =
     ascii ''(1, '' @ [34] @ ascii ''Failed loading language '' @ [39] @ ascii ''ben'' @ [39, 34] @
     ascii '')''"

definition unsupported_env :: "(nat, int) env" where
  "unsupported_env =
     scenario_env\<lparr>image_to_string :=
       (\<lambda>img config. if img = 0 then Inr page_one else Inl (TesseractError language_report))\<rparr>"

text \<open>A key that the completion service of the scenario rejects.\<close>

definition wrong_key :: str where
  "wrong_key = ascii ''sk-wrong''"

text \<open>An index of three vectors of dimension two.\<close>

definition three_vectors :: "int index" where
  "three_vectors = \<lparr>ix_d = 2, ix_xb = [[3, 4], [1, 1], [0, 2]]\<rparr>"

text \<open>
  Two vectors whose exact squared distances from the origin, 900060026 and 900060025, are
  both rounded to 900060032 in float32.
\<close>

definition near_tie :: "int index" where
  "near_tie = \<lparr>ix_d = 2, ix_xb = [[30001, 5], [30000, 245]]\<rparr>"

text \<open>
  The services of the scenario with a splitter that returns three chunks, the document
  they make, and a cache that already holds another document.
\<close>

definition chunked_env :: "(nat, int) env" where
  "chunked_env =
     scenario_env\<lparr>split_text :=
       (\<lambda>sp t. if t = [] then [] else [page_one, page_two, page_one @ page_two])\<rparr>"

definition chunked_doc :: "str list \<times> int index" where
  "chunked_doc =
     ([page_one, page_two, page_one @ page_two],
      \<lparr>ix_d = 2, ix_xb = [[13, 1], [16, 1], [29, 1]]\<rparr>)"

definition stocked_world :: "int world" where
  "stocked_world =
     \<lparr>files = [(ascii ''cache/other.pdf.pkl'', Pickle scenario_doc)], api_key_env = None,
      screen = [], calls = []\<rparr>"

text \<open>The same services on a PDF without pages: the extracted text is empty.\<close>

definition blank_env :: "(nat, int) env" where
  "blank_env = scenario_env\<lparr>convert_from_path := (\<lambda>pdf_path dpi. Inr [])\<rparr>"

section \<open>Notions used in the statements\<close>

text \<open>A page fails when the OCR call raises on it; extraction fails when the PDF cannot be
  rasterised or some page fails.\<close>

definition page_fails :: "module \<Rightarrow> ('i, 'a) env \<Rightarrow> 'i \<Rightarrow> bool" where
  "page_fails m env img = isl (image_to_string env img (tesseract_config m))"

definition extraction_fails :: "module \<Rightarrow> ('i, 'a) env \<Rightarrow> str \<Rightarrow> bool" where
  "extraction_fails m env pdf_path =
     (case convert_from_path env pdf_path 300 of
        Inl e \<Rightarrow> True
      | Inr images \<Rightarrow> list_ex (page_fails m env) images)"

definition page_text :: "module \<Rightarrow> ('i, 'a) env \<Rightarrow> 'i \<Rightarrow> str" where
  "page_text m env img = projr (image_to_string env img (tesseract_config m))"

text \<open>Progress updates of the page loop.\<close>

fun is_progress :: "ui \<Rightarrow> bool" where
  "is_progress (St_progress i n) = True"
| "is_progress u = False"

text \<open>
  Invariants of the cache: every pickled entry satisfies \<open>P\<close>. A document is non-empty when
  it has a chunk and a vector; it is embedded by \<open>env\<close> when its vectors are the embeddings
  of its chunks, in order, all of the dimension of the index.
\<close>

definition every_entry :: "(str list \<times> 'a index \<Rightarrow> bool) \<Rightarrow> 'a world \<Rightarrow> bool" where
  "every_entry P w =
     list_all (\<lambda>(path, f). case f of Pickle doc \<Rightarrow> P doc | Garbage \<Rightarrow> True) (files w)"

definition nonempty_doc :: "str list \<times> 'a index \<Rightarrow> bool" where
  "nonempty_doc doc = (fst doc \<noteq> [] \<and> 1 \<le> ntotal (snd doc))"

definition embedded_doc :: "('i, 'a) env \<Rightarrow> str list \<times> 'a index \<Rightarrow> bool" where
  "embedded_doc env doc =
     (ix_xb (snd doc) = encode env (fst doc) \<and>
      list_all (\<lambda>row. length row = ix_d (snd doc)) (ix_xb (snd doc)))"

section \<open>Properties\<close>

lemma ocr_pages_files:
  "ocr_pages m env n i images full_text w = (r, w') \<Longrightarrow> files w' = files w"
proof (induction images arbitrary: i full_text w)
  case Nil
  then show ?case by simp
next
  case (Cons img images)
  show ?case
  proof (cases "image_to_string env img (tesseract_config m)")
    case (Inr page_text)
    with Cons.prems have
      "ocr_pages m env n (i + 1) images (full_text @ page_text @ [10, 10])
         (st (St_progress (i + 1) n) (called (Call_image_to_string i) w)) = (r, w')"
      by (simp add: Let_def)
    from Cons.IH [OF this] show ?thesis by (simp add: st_def called_def)
  next
    case (Inl err)
    with Cons.prems show ?thesis
      by (cases err) (auto simp: Let_def called_def)
  qed
qed

lemma extract_text_files:
  "extract_text_from_pdf m env pdf_path w = (r, w') \<Longrightarrow> files w' = files w"
  unfolding extract_text_from_pdf_def Let_def
  by (auto simp: st_def called_def split: sum.splits prod.splits abort.splits
      dest!: ocr_pages_files)

subsection \<open>Strings and paths\<close>

lemma contains_sublist: "contains sub s = sublist sub s"
  by (induction s) (simp_all add: sublist_Cons_right)

lemma contains_middle: "contains sub (a @ sub @ b)"
  by (simp add: contains_sublist)

lemma cache_path_basename: "basename p' = basename p \<Longrightarrow> cache_path p' = cache_path p"
  by (simp add: cache_path_def)

subsection \<open>The scenario, step by step\<close>

lemma scenario_text_length: "length scenario_text = 33"
  by (simp add: scenario_text_def page_one_def page_two_def)

lemma scenario_text_nonempty: "scenario_text \<noteq> []"
  using scenario_text_length by auto

lemma scenario_extract:
  "extract_text_from_pdf m scenario_env p w =
     (Inr scenario_text,
      w\<lparr>screen := screen w @ [St_progress 0 1, St_progress 1 2, St_progress 2 2,
                 St_success (ascii ''Text extraction complete!'')],
        calls := calls w @
          [Call_convert_from_path p, Call_image_to_string 0, Call_image_to_string 1]\<rparr>)"
  by (simp add: extract_text_from_pdf_def scenario_env_def st_def called_def scenario_text_def)

lemma scenario_process:
  "map_of (files w) (cache_path p) = None \<Longrightarrow>
   process_pdf m scenario_env p w =
     (Inr scenario_doc,
      w\<lparr>files := AList.update (cache_path p) (Pickle scenario_doc) (files w),
        screen := screen w @ [St_progress 0 1, St_progress 1 2, St_progress 2 2,
                 St_success (ascii ''Text extraction complete!'')],
        calls := calls w @
          [Call_convert_from_path p, Call_image_to_string 0, Call_image_to_string 1,
           Call_split_text scenario_text, Call_encode [scenario_text]]\<rparr>)"
  apply (simp add: process_pdf_def scenario_extract Let_def)
  apply (simp add: scenario_env_def scenario_text_nonempty scenario_text_length scenario_doc_def
      encode_def shape_def getitem_def add_def IndexFlatL2_def called_def)
  apply (cases w, simp add: numeral_2_eq_2)
  done

subsection \<open>The document cache\<close>

lemma process_pdf_hit:
  "map_of (files w) (cache_path p) = Some f \<Longrightarrow> process_pdf m env p w = (pickle_load f, w)"
  by (simp add: process_pdf_def)

lemma process_pdf_miss:
  assumes miss: "map_of (files w) (cache_path p) = None"
    and ok: "process_pdf m env p w = (Inr pr, w')"
  shows "\<exists>t w1. extract_text_from_pdf m env p w = (Inr t, w1)
            \<and> fst pr = split_text env text_splitter t
            \<and> fst pr \<noteq> []
            \<and> snd pr = \<lparr>ix_d = length (embed env (hd (fst pr))), ix_xb = encode env (fst pr)\<rparr>
            \<and> w' = (called (Call_encode (fst pr)) (called (Call_split_text t) w1))
                     \<lparr>files := AList.update (cache_path p) (Pickle pr) (files w)\<rparr>"
proof -
  obtain r w1 where ex: "extract_text_from_pdf m env p w = (r, w1)"
    by (cases "extract_text_from_pdf m env p w")
  have fw1: "files w1 = files w" using ex by (rule extract_text_files)
  from miss ok ex obtain t where r: "r = Inr t"
    by (cases r) (auto simp: process_pdf_def)
  from miss ok ex r have ne: "split_text env text_splitter t \<noteq> []"
    by (auto simp: process_pdf_def Let_def encode_def shape_def getitem_def
        split: list.splits if_splits sum.splits)
  from miss ok ex r ne show ?thesis
    apply (simp add: process_pdf_def Let_def)
    apply (auto simp: encode_def shape_def getitem_def add_def IndexFlatL2_def called_def fw1
        neq_Nil_conv split: list.splits if_splits sum.splits)
    done
qed

text \<open>
  Claim C1. The cache is keyed by the base name of the PDF path. When the cache file of that
  key holds a pickled pair, \<open>process_pdf\<close> returns the pair and leaves the world as it is:
  no extraction, splitting or embedding call is logged. When there is no such file and the
  run succeeds, the pair is the one computed by extraction, splitting, embedding and index
  construction, it is stored under the key, and a second call, with any path of the same
  base name, returns the stored pair and again leaves the world as it is.
\<close>

theorem process_pdf_get_or_compute:
  "(map_of (files w) (cache_path p) = Some (Pickle pr) \<longrightarrow>
      process_pdf m env p w = (Inr pr, w)) \<and>
   (map_of (files w) (cache_path p) = None \<and> process_pdf m env p w = (Inr pr, w') \<longrightarrow>
      (\<exists>t w1. extract_text_from_pdf m env p w = (Inr t, w1) \<and>
         fst pr = split_text env text_splitter t \<and>
         snd pr = \<lparr>ix_d = length (embed env (hd (fst pr))), ix_xb = encode env (fst pr)\<rparr> \<and>
         w' = (called (Call_encode (fst pr)) (called (Call_split_text t) w1))
                \<lparr>files := AList.update (cache_path p) (Pickle pr) (files w)\<rparr>) \<and>
      map_of (files w') (cache_path p) = Some (Pickle pr) \<and>
      (\<forall>p'. basename p' = basename p \<longrightarrow> process_pdf m env p' w' = (Inr pr, w')))"
proof (intro conjI impI)
  assume "map_of (files w) (cache_path p) = Some (Pickle pr)"
  then show "process_pdf m env p w = (Inr pr, w)"
    by (simp add: process_pdf_hit)
next
  assume h: "map_of (files w) (cache_path p) = None \<and> process_pdf m env p w = (Inr pr, w')"
  from h have h1: "map_of (files w) (cache_path p) = None"
    and h2: "process_pdf m env p w = (Inr pr, w')" by simp_all
  from process_pdf_miss [OF h1 h2]
  obtain t w1 where ex: "extract_text_from_pdf m env p w = (Inr t, w1)"
    and c: "fst pr = split_text env text_splitter t"
    and ix: "snd pr = \<lparr>ix_d = length (embed env (hd (fst pr))), ix_xb = encode env (fst pr)\<rparr>"
    and w': "w' = (called (Call_encode (fst pr)) (called (Call_split_text t) w1))
                \<lparr>files := AList.update (cache_path p) (Pickle pr) (files w)\<rparr>"
    by auto
  from ex c ix w' show "\<exists>t w1. extract_text_from_pdf m env p w = (Inr t, w1) \<and>
         fst pr = split_text env text_splitter t \<and>
         snd pr = \<lparr>ix_d = length (embed env (hd (fst pr))), ix_xb = encode env (fst pr)\<rparr> \<and>
         w' = (called (Call_encode (fst pr)) (called (Call_split_text t) w1))
                \<lparr>files := AList.update (cache_path p) (Pickle pr) (files w)\<rparr>"
    by blast
  from w' show stored: "map_of (files w') (cache_path p) = Some (Pickle pr)"
    by (simp add: update_Some_unfold)
  show "\<forall>p'. basename p' = basename p \<longrightarrow> process_pdf m env p' w' = (Inr pr, w')"
  proof (intro allI impI)
    fix p' assume "basename p' = basename p"
    then have "cache_path p' = cache_path p" by (rule cache_path_basename)
    with stored show "process_pdf m env p' w' = (Inr pr, w')"
      by (simp add: process_pdf_hit)
  qed
qed

theorem process_pdf_get_or_compute_witness:
  "map_of (files fresh_world) (cache_path PDF_PATH) = None \<and>
   (\<exists>w'. process_pdf App scenario_env PDF_PATH fresh_world = (Inr scenario_doc, w') \<and>
      calls w' = [Call_convert_from_path PDF_PATH, Call_image_to_string 0, Call_image_to_string 1,
                  Call_split_text scenario_text, Call_encode [scenario_text]] \<and>
      map_of (files w') (cache_path PDF_PATH) = Some (Pickle scenario_doc) \<and>
      process_pdf App scenario_env PDF_PATH w' = (Inr scenario_doc, w'))"
proof -
  have miss: "map_of (files fresh_world) (cache_path PDF_PATH) = None"
    by (simp add: fresh_world_def)
  obtain w' where
    run: "process_pdf App scenario_env PDF_PATH fresh_world = (Inr scenario_doc, w')" and
    log: "calls w' = [Call_convert_from_path PDF_PATH, Call_image_to_string 0,
                  Call_image_to_string 1, Call_split_text scenario_text,
                  Call_encode [scenario_text]]"
    using scenario_process [OF miss, of App] by (simp add: fresh_world_def)
  from process_pdf_get_or_compute [of fresh_world PDF_PATH scenario_doc App scenario_env w']
    miss run
  have stored: "map_of (files w') (cache_path PDF_PATH) = Some (Pickle scenario_doc)"
    and again: "process_pdf App scenario_env PDF_PATH w' = (Inr scenario_doc, w')"
    by blast+
  from miss run log stored again show ?thesis by blast
qed

subsection \<open>Extraction\<close>

lemma ocr_pages_fail:
  "list_ex (page_fails m env) images \<Longrightarrow> \<exists>a w'. ocr_pages m env n i images acc w = (Inl a, w')"
proof (induction images arbitrary: i acc w)
  case Nil
  then show ?case by simp
next
  case (Cons img images)
  show ?case
  proof (cases "image_to_string env img (tesseract_config m)")
    case (Inl err)
    then show ?thesis by (cases err) (simp_all add: Let_def)
  next
    case (Inr page)
    with Cons.prems have "list_ex (page_fails m env) images"
      by (simp add: page_fails_def list_ex_iff)
    from Cons.IH [OF this, of "i + 1" "acc @ page @ [10, 10]"
        "st (St_progress (i + 1) n) (called (Call_image_to_string i) w)"] Inr
    show ?thesis by (simp add: Let_def)
  qed
qed

lemma ocr_pages_ok:
  "\<not> list_ex (page_fails m env) images \<Longrightarrow>
   \<exists>w'. ocr_pages m env n i images acc w =
     (Inr (acc @ concat (map (\<lambda>img. page_text m env img @ [10, 10]) images)), w')"
proof (induction images arbitrary: i acc w)
  case Nil
  then show ?case by simp
next
  case (Cons img images)
  from Cons.prems obtain page where page: "image_to_string env img (tesseract_config m) = Inr page"
    by (cases "image_to_string env img (tesseract_config m)") (auto simp: page_fails_def)
  from Cons.prems have "\<not> list_ex (page_fails m env) images" by simp
  from Cons.IH [OF this, of "i + 1" "acc @ page @ [10, 10]"
      "st (St_progress (i + 1) n) (called (Call_image_to_string i) w)"] page
  show ?case by (simp add: Let_def page_text_def)
qed

lemma extract_fails:
  assumes "extraction_fails m env p"
  shows "\<exists>w1. extract_text_from_pdf m env p w = (Inl StopException, w1) \<and> files w1 = files w"
proof -
  obtain r w1 where ex: "extract_text_from_pdf m env p w = (r, w1)"
    by (cases "extract_text_from_pdf m env p w")
  have fw: "files w1 = files w" using ex by (rule extract_text_files)
  have "r = Inl StopException"
  proof (cases "convert_from_path env p 300")
    case (Inl e)
    with ex show ?thesis by (auto simp: extract_text_from_pdf_def Let_def)
  next
    case (Inr images)
    with assms have "list_ex (page_fails m env) images" by (simp add: extraction_fails_def)
    from ocr_pages_fail [OF this] obtain a w' where
      "ocr_pages m env (length images) 0 images [] (st (St_progress 0 1) (called (Call_convert_from_path p) w)) = (Inl a, w')"
      by blast
    with ex Inr show ?thesis
      by (cases a) (auto simp: extract_text_from_pdf_def Let_def)
  qed
  with ex fw show ?thesis by simp
qed

lemma extract_succeeds:
  assumes "\<not> extraction_fails m env p"
  shows "\<exists>images w1. convert_from_path env p 300 = Inr images \<and>
     extract_text_from_pdf m env p w =
       (Inr (concat (map (\<lambda>img. page_text m env img @ [10, 10]) images)), w1)"
proof -
  from assms obtain images where conv: "convert_from_path env p 300 = Inr images"
    and ok: "\<not> list_ex (page_fails m env) images"
    by (cases "convert_from_path env p 300") (auto simp: extraction_fails_def)
  from ocr_pages_ok [OF ok] obtain w' where
    "ocr_pages m env (length images) 0 images [] (st (St_progress 0 1) (called (Call_convert_from_path p) w)) =
       (Inr ([] @ concat (map (\<lambda>img. page_text m env img @ [10, 10]) images)), w')"
    by blast
  with conv show ?thesis by (simp add: extract_text_from_pdf_def Let_def)
qed

lemma language_report_ben: "contains (ascii ''ben'') language_report"
proof -
  have eq: "language_report =
     (ascii ''(1, '' @ [34] @ ascii ''Failed loading language '' @ [39]) @ ascii ''ben'' @
     ([39, 34] @ ascii '')'')"
    by (simp add: language_report_def)
  show ?thesis unfolding eq by (rule contains_middle)
qed

lemma ocr_pages_tesseract_error:
  assumes "\<not> list_ex (page_fails m env) pre"
    and "image_to_string env img (tesseract_config m) = Inl (TesseractError e)"
  shows "\<exists>w' shown. ocr_pages m env n i (pre @ img # rest) acc w = (Inl Stopped, w') \<and>
     screen w' = screen w @ shown @ tesseract_failure m e \<and> list_all is_progress shown"
  using assms
proof (induction pre arbitrary: i acc w)
  case Nil
  then show ?case by (simp add: Let_def called_def)
next
  case (Cons x pre)
  from Cons.prems obtain page where page: "image_to_string env x (tesseract_config m) = Inr page"
    by (cases "image_to_string env x (tesseract_config m)") (auto simp: page_fails_def)
  from Cons.prems have "\<not> list_ex (page_fails m env) pre" by simp
  from Cons.IH [OF this Cons.prems(2), of "i + 1" "acc @ page @ [10, 10]"
      "st (St_progress (i + 1) n) (called (Call_image_to_string i) w)"]
  obtain w' shown where
    run: "ocr_pages m env n (i + 1) (pre @ img # rest) (acc @ page @ [10, 10])
       (st (St_progress (i + 1) n) (called (Call_image_to_string i) w)) = (Inl Stopped, w')"
    and scr: "screen w' = screen (st (St_progress (i + 1) n) (called (Call_image_to_string i) w)) @
       shown @ tesseract_failure m e"
    and pr: "list_all is_progress shown"
    by blast
  from scr have "screen w' = screen w @ (St_progress (i + 1) n # shown) @ tesseract_failure m e"
    by (simp add: st_def called_def)
  moreover from pr have "list_all is_progress (St_progress (i + 1) n # shown)" by simp
  moreover from run page have "ocr_pages m env n i ((x # pre) @ img # rest) acc w = (Inl Stopped, w')"
    by (simp add: Let_def)
  ultimately show ?case by blast
qed

lemma unsupported_extract:
  "extract_text_from_pdf m unsupported_env p w =
     (Inl StopException,
      w\<lparr>screen := screen w @ [St_progress 0 1, St_progress 1 2] @ tesseract_failure m language_report,
        calls := calls w @ [Call_convert_from_path p, Call_image_to_string 0, Call_image_to_string 1]\<rparr>)"
  by (simp add: extract_text_from_pdf_def unsupported_env_def scenario_env_def st_def called_def)

text \<open>
  Claim C5. Extraction is all-or-nothing. When rasterising the PDF raises or the OCR call
  raises on some page, \<open>extract_text_from_pdf\<close> ends in \<open>st.stop()\<close>: no text is returned,
  and the files are as before; \<open>process_pdf\<close>, on a cache miss, then stops as well and
  writes no cache entry. When nothing fails, the text returned is the text of every page,
  each followed by a blank line, in page order.
\<close>

theorem extraction_all_or_nothing:
  "(extraction_fails m env p \<longrightarrow>
      (\<exists>w1. extract_text_from_pdf m env p w = (Inl StopException, w1) \<and> files w1 = files w) \<and>
      (map_of (files w) (cache_path p) = None \<longrightarrow>
         (\<exists>w1. process_pdf m env p w = (Inl StopException, w1) \<and> files w1 = files w))) \<and>
   (\<not> extraction_fails m env p \<longrightarrow>
      (\<exists>images w1. convert_from_path env p 300 = Inr images \<and>
         extract_text_from_pdf m env p w =
           (Inr (concat (map (\<lambda>img. page_text m env img @ [10, 10]) images)), w1)))"
proof (intro conjI impI)
  assume f: "extraction_fails m env p"
  from extract_fails [OF f] show
    "\<exists>w1. extract_text_from_pdf m env p w = (Inl StopException, w1) \<and> files w1 = files w" .
  assume miss: "map_of (files w) (cache_path p) = None"
  from extract_fails [OF f] obtain w1 where
    "extract_text_from_pdf m env p w = (Inl StopException, w1)" "files w1 = files w" by blast
  with miss show "\<exists>w1. process_pdf m env p w = (Inl StopException, w1) \<and> files w1 = files w"
    by (simp add: process_pdf_def)
next
  assume "\<not> extraction_fails m env p"
  then show "\<exists>images w1. convert_from_path env p 300 = Inr images \<and>
         extract_text_from_pdf m env p w =
           (Inr (concat (map (\<lambda>img. page_text m env img @ [10, 10]) images)), w1)"
    by (rule extract_succeeds)
qed


theorem extraction_all_or_nothing_witness:
  "extraction_fails App unsupported_env PDF_PATH \<and>
   map_of (files fresh_world) (cache_path PDF_PATH) = None \<and>
   (\<exists>w1. extract_text_from_pdf App unsupported_env PDF_PATH fresh_world =
            (Inl StopException, w1) \<and> files w1 = files fresh_world) \<and>
   (\<exists>w1. process_pdf App unsupported_env PDF_PATH fresh_world = (Inl StopException, w1) \<and>
         files w1 = files fresh_world) \<and>
   \<not> extraction_fails App scenario_env PDF_PATH \<and>
   (\<exists>w1. extract_text_from_pdf App scenario_env PDF_PATH fresh_world =
      (Inr (concat (map (\<lambda>img. page_text App scenario_env img @ [10, 10]) [0, 1])), w1))"
proof -
  have f: "extraction_fails App unsupported_env PDF_PATH"
    by (simp add: extraction_fails_def page_fails_def unsupported_env_def scenario_env_def)
  have miss: "map_of (files fresh_world) (cache_path PDF_PATH) = None"
    by (simp add: fresh_world_def)
  have ok: "\<not> extraction_fails App scenario_env PDF_PATH"
    by (simp add: extraction_fails_def page_fails_def scenario_env_def)
  have conv: "convert_from_path scenario_env PDF_PATH 300 = Inr [0, 1]"
    by (simp add: scenario_env_def)
  from extraction_all_or_nothing [of App unsupported_env PDF_PATH fresh_world] f miss
  have a: "\<exists>w1. extract_text_from_pdf App unsupported_env PDF_PATH fresh_world =
            (Inl StopException, w1) \<and> files w1 = files fresh_world"
    and b: "\<exists>w1. process_pdf App unsupported_env PDF_PATH fresh_world =
            (Inl StopException, w1) \<and> files w1 = files fresh_world"
    by blast+
  from extraction_all_or_nothing [of App scenario_env PDF_PATH fresh_world] ok conv
  have c: "\<exists>w1. extract_text_from_pdf App scenario_env PDF_PATH fresh_world =
      (Inr (concat (map (\<lambda>img. page_text App scenario_env img @ [10, 10]) [0, 1])), w1)"
    by auto
  from f miss a b ok c show ?thesis by blast
qed

text \<open>
  Claim C6, as stated, fails for \<open>app_deploy.py\<close>: with the Bengali profile, a report of
  missing language data on the second page is shown by the generic message
  \<open>Tesseract error: ...\<close>, as every other Tesseract error is.
\<close>

theorem deploy_language_report_counterexample:
  "image_to_string unsupported_env 1 (tesseract_config (Deploy ben_config)) =
     Inl (TesseractError language_report) \<and>
   contains (ascii ''ben'') language_report \<and>
   extract_text_from_pdf (Deploy ben_config) unsupported_env PDF_PATH fresh_world =
     (Inl StopException,
      \<lparr>files = [], api_key_env = None,
       screen = [St_progress 0 1, St_progress 1 2,
                 St_error (ascii ''Tesseract error: '' @ language_report)],
       calls = [Call_convert_from_path PDF_PATH, Call_image_to_string 0, Call_image_to_string 1]\<rparr>)"
  by (simp add: unsupported_extract language_report_ben fresh_world_def)
    (simp add: unsupported_env_def scenario_env_def)

text \<open>
  Claim C6, amended. When the OCR call raises a Tesseract error on a page, all pages before
  it having been read, extraction shows progress updates only, then the report of the
  error, and stops. In \<open>app.py\<close> the report of an error whose text names \<open>ben\<close> is the
  Bengali-language-data message with the instructions to install the data, which differs
  from every generic report; any other error is reported as \<open>Tesseract error: ...\<close> with
  the engine's text. In \<open>app_deploy.py\<close> every Tesseract error is reported in the generic
  form.
\<close>

theorem tesseract_error_report:
  "convert_from_path env p 300 = Inr (pre @ img # rest) \<and>
   \<not> list_ex (page_fails m env) pre \<and>
   image_to_string env img (tesseract_config m) = Inl (TesseractError e) \<longrightarrow>
   (\<exists>w1 shown. extract_text_from_pdf m env p w = (Inl StopException, w1) \<and>
      list_all is_progress shown \<and>
      screen w1 = screen w @ shown @
        (case m of
           App \<Rightarrow>
             if contains (ascii ''ben'') e
             then [St_error bengali_missing_error, St_markdown bengali_fix_markdown]
             else [St_error (ascii ''Tesseract error: '' @ e)]
         | Deploy config \<Rightarrow> [St_error (ascii ''Tesseract error: '' @ e)])) \<and>
   [St_error bengali_missing_error, St_markdown bengali_fix_markdown] \<noteq>
     [St_error (ascii ''Tesseract error: '' @ e')] \<and>
   bengali_missing_error \<noteq> ascii ''Tesseract error: '' @ e'"
proof (intro impI conjI)
  assume h: "convert_from_path env p 300 = Inr (pre @ img # rest) \<and>
   \<not> list_ex (page_fails m env) pre \<and>
   image_to_string env img (tesseract_config m) = Inl (TesseractError e)"
  then have conv: "convert_from_path env p 300 = Inr (pre @ img # rest)"
    and ok: "\<not> list_ex (page_fails m env) pre"
    and err: "image_to_string env img (tesseract_config m) = Inl (TesseractError e)"
    by simp_all
  from ocr_pages_tesseract_error [OF ok err, of "length (pre @ img # rest)" 0 rest "[]"
      "st (St_progress 0 1) (called (Call_convert_from_path p) w)"]
  obtain w' shown where
    run: "ocr_pages m env (length (pre @ img # rest)) 0 (pre @ img # rest) []
       (st (St_progress 0 1) (called (Call_convert_from_path p) w)) = (Inl Stopped, w')"
    and scr: "screen w' = screen (st (St_progress 0 1) (called (Call_convert_from_path p) w)) @
       shown @ tesseract_failure m e"
    and pr: "list_all is_progress shown"
    by blast
  from run conv have "extract_text_from_pdf m env p w = (Inl StopException, w')"
    by (simp add: extract_text_from_pdf_def Let_def)
  moreover from pr have "list_all is_progress (St_progress 0 1 # shown)" by simp
  moreover from scr have "screen w' = screen w @ (St_progress 0 1 # shown) @
        (case m of
           App \<Rightarrow>
             if contains (ascii ''ben'') e
             then [St_error bengali_missing_error, St_markdown bengali_fix_markdown]
             else [St_error (ascii ''Tesseract error: '' @ e)]
         | Deploy config \<Rightarrow> [St_error (ascii ''Tesseract error: '' @ e)])"
    by (cases m) (simp_all add: st_def called_def)
  ultimately show "\<exists>w1 shown. extract_text_from_pdf m env p w = (Inl StopException, w1) \<and>
      list_all is_progress shown \<and>
      screen w1 = screen w @ shown @
        (case m of
           App \<Rightarrow>
             if contains (ascii ''ben'') e
             then [St_error bengali_missing_error, St_markdown bengali_fix_markdown]
             else [St_error (ascii ''Tesseract error: '' @ e)]
         | Deploy config \<Rightarrow> [St_error (ascii ''Tesseract error: '' @ e)])"
    by blast
next
  show "[St_error bengali_missing_error, St_markdown bengali_fix_markdown] \<noteq>
     [St_error (ascii ''Tesseract error: '' @ e')]" by simp
next
  show "bengali_missing_error \<noteq> ascii ''Tesseract error: '' @ e'"
    by (simp add: bengali_missing_error_def ascii_def)
qed

theorem tesseract_error_report_witness:
  "convert_from_path unsupported_env PDF_PATH 300 = Inr ([0] @ 1 # []) \<and>
   \<not> list_ex (page_fails App unsupported_env) [0] \<and>
   image_to_string unsupported_env 1 (tesseract_config App) = Inl (TesseractError language_report) \<and>
   (\<exists>w1 shown. extract_text_from_pdf App unsupported_env PDF_PATH fresh_world = (Inl StopException, w1) \<and>
      list_all is_progress shown \<and>
      screen w1 = shown @ [St_error bengali_missing_error, St_markdown bengali_fix_markdown])"
proof -
  have a: "convert_from_path unsupported_env PDF_PATH 300 = Inr ([0] @ 1 # [])"
    by (simp add: unsupported_env_def scenario_env_def)
  have b: "\<not> list_ex (page_fails App unsupported_env) [0]"
    by (simp add: page_fails_def unsupported_env_def scenario_env_def)
  have c: "image_to_string unsupported_env 1 (tesseract_config App) = Inl (TesseractError language_report)"
    by (simp add: unsupported_env_def scenario_env_def)
  from tesseract_error_report [of unsupported_env PDF_PATH "[0]" 1 "[]" App language_report fresh_world]
    a b c language_report_ben
  have "\<exists>w1 shown. extract_text_from_pdf App unsupported_env PDF_PATH fresh_world = (Inl StopException, w1) \<and>
      list_all is_progress shown \<and>
      screen w1 = screen fresh_world @ shown @ [St_error bengali_missing_error, St_markdown bengali_fix_markdown]"
    by simp
  then have "\<exists>w1 shown. extract_text_from_pdf App unsupported_env PDF_PATH fresh_world = (Inl StopException, w1) \<and>
      list_all is_progress shown \<and>
      screen w1 = shown @ [St_error bengali_missing_error, St_markdown bengali_fix_markdown]"
    by (simp add: fresh_world_def)
  with a b c show ?thesis by blast
qed

subsection \<open>Nearest-neighbour search\<close>

lemma knn_length: "length (knn kern ix q k) = min k (ntotal ix)"
  by (simp add: knn_def)

lemma knn_distinct: "distinct (knn kern ix q k)"
  by (simp add: knn_def)

lemma knn_range: "l \<in> set (knn kern ix q k) \<Longrightarrow> l < ntotal ix"
  unfolding knn_def by (auto dest!: in_set_takeD)

lemma knn_sorted: "sorted (map (\<lambda>i. kern q (ix_xb ix ! i)) (knn kern ix q k))"
proof -
  let ?f = "\<lambda>i. kern q (ix_xb ix ! i)"
  have "sorted (take k (map ?f (sort_key ?f [0..<ntotal ix])))"
    by (rule sorted_wrt_take) simp
  then show ?thesis by (simp add: knn_def take_map)
qed

lemma knn_nearest:
  assumes j: "j < ntotal ix" and out: "j \<notin> set (knn kern ix q k)"
    and l: "l \<in> set (knn kern ix q k)"
  shows "kern q (ix_xb ix ! l) \<le> kern q (ix_xb ix ! j)"
proof -
  let ?f = "\<lambda>i. kern q (ix_xb ix ! i)"
  let ?s = "sort_key ?f [0..<ntotal ix]"
  have "sorted (map ?f ?s)" by simp
  then have "sorted (map ?f (take k ?s) @ map ?f (drop k ?s))"
    by (simp only: map_append [symmetric] append_take_drop_id)
  then have le: "\<forall>a\<in>set (take k ?s). \<forall>b\<in>set (drop k ?s). ?f a \<le> ?f b"
    by (simp add: sorted_append)
  have "j \<in> set (take k ?s) \<union> set (drop k ?s)"
    using j by (simp only: set_append [symmetric] append_take_drop_id) simp
  with out have "j \<in> set (drop k ?s)" by (simp add: knn_def)
  with le l show ?thesis by (simp add: knn_def)
qed

lemma search_single:
  "search kern ix [q] k =
     (if length q \<noteq> ix_d ix \<or> k = 0 then Inl AssertionError
      else Inr ([fst (search_row kern ix k q)], [snd (search_row kern ix k q)]))"
  by (simp add: search_def shape_def)

lemma search_row_labels:
  "snd (search_row kern ix k q) =
     map int (knn kern ix q k) @ replicate (k - min k (ntotal ix)) (- 1)"
  by (simp add: search_row_def Let_def knn_length)

lemma search_row_distances:
  "fst (search_row kern ix k q) =
     map (\<lambda>i. Some (kern q (ix_xb ix ! i))) (knn kern ix q k) @
     replicate (k - min k (ntotal ix)) None"
  by (simp add: search_row_def Let_def knn_length)

text \<open>
  The float32 rounding: a float of magnitude below \<open>2\<^sup>2\<^sup>4\<close> is kept, and in the binade from
  \<open>2\<^bsup>23+e\<^esup>\<close> the value is rounded to a multiple of \<open>2\<^sup>e\<close>.
\<close>

lemma bit_length_le: "n < 2 ^ k \<Longrightarrow> bit_length n \<le> k"
proof (induction k arbitrary: n)
  case 0
  then show ?case by (simp add: bit_length.simps)
next
  case (Suc k)
  then have "n div 2 < 2 ^ k" by simp
  from Suc.IH [OF this] show ?case by (simp add: bit_length.simps [of n])
qed

lemma bit_length_eq: "2 ^ k \<le> n \<Longrightarrow> n < 2 ^ Suc k \<Longrightarrow> bit_length n = Suc k"
proof (induction k arbitrary: n)
  case 0
  then have "n = 1" by simp
  then show ?case by (simp add: bit_length.simps [of "Suc 0"] bit_length.simps [of 0])
next
  case (Suc k)
  then have "2 ^ k \<le> n div 2" and "n div 2 < 2 ^ Suc k" by simp_all
  from Suc.IH [OF this] Suc.prems show ?case by (simp add: bit_length.simps [of n])
qed

lemma f32_exact: "\<bar>n\<bar> < 16777216 \<Longrightarrow> f32 n = n"
proof -
  assume "\<bar>n\<bar> < 16777216"
  then have "nat \<bar>n\<bar> < 2 ^ 24" by simp
  then have "bit_length (nat \<bar>n\<bar>) \<le> 24" by (rule bit_length_le)
  then show "f32 n = n" by (simp add: f32_def Let_def sgn_if)
qed

lemma f32_binade:
  assumes lo: "2 ^ (23 + e) \<le> a" and hi: "a < 2 ^ (24 + e)"
  shows "f32 (int a) =
     int (if 2 ^ e < 2 * (a mod 2 ^ e) \<or> (2 * (a mod 2 ^ e) = 2 ^ e \<and> odd (a div 2 ^ e))
          then (a div 2 ^ e + 1) * 2 ^ e else a div 2 ^ e * 2 ^ e)"
proof -
  from lo hi have "bit_length a = Suc (23 + e)" by (intro bit_length_eq) simp_all
  moreover from lo have "0 < a" by (cases "a = 0") simp_all
  ultimately show ?thesis by (simp add: f32_def Let_def)
qed

lemma f32_900060001: "f32 900060001 = 900060032"
  using f32_binade [of 6 900060001] by simp

lemma f32_900060032: "f32 900060032 = 900060032"
  using f32_binade [of 6 900060032] by simp

lemma f32_900060057: "f32 900060057 = 900060032"
  using f32_binade [of 6 900060057] by simp

lemma f32_900000000: "f32 900000000 = 900000000"
  using f32_binade [of 6 900000000] by simp

lemma f32_900060025: "f32 900060025 = 900060032"
  using f32_binade [of 6 900060025] by simp

lemma near_tie_distances:
  "fvec_L2sqr_ref [0, 0] [30001, 5] = 900060032 \<and>
   fvec_L2sqr_ref [0, 0] [30000, 245] = 900060032"
  by (simp add: fvec_L2sqr_ref_def f32_exact f32_900060001 f32_900060032 f32_900060057
      f32_900000000 f32_900060025)

lemma three_vectors_distances:
  "fvec_L2sqr_ref [0, 0] [3, 4] = 25 \<and> fvec_L2sqr_ref [0, 0] [1, 1] = 2 \<and>
   fvec_L2sqr_ref [0, 0] [0, 2] = 4"
  by (simp add: fvec_L2sqr_ref_def f32_exact)

lemma chunked_distances:
  "fvec_L2sqr_ref [13, 1] [13, 1] = 0 \<and> fvec_L2sqr_ref [13, 1] [16, 1] = 9 \<and>
   fvec_L2sqr_ref [13, 1] [29, 1] = 256 \<and> fvec_L2sqr_ref [16, 1] [13, 1] = 9 \<and>
   fvec_L2sqr_ref [16, 1] [16, 1] = 0 \<and> fvec_L2sqr_ref [16, 1] [29, 1] = 169 \<and>
   fvec_L2sqr_ref [29, 1] [13, 1] = 256 \<and> fvec_L2sqr_ref [29, 1] [16, 1] = 169 \<and>
   fvec_L2sqr_ref [29, 1] [29, 1] = 0"
  by (simp add: fvec_L2sqr_ref_def f32_exact)
lemma three_vectors_search:
  "search fvec_L2sqr_ref three_vectors [[0, 0]] 2 = Inr ([[Some 2, Some 4]], [[1, 2]])"
  by (simp add: search_def shape_def search_row_def knn_def ntotal_def three_vectors_def Let_def
      three_vectors_distances)

lemma near_tie_search:
  "search fvec_L2sqr_ref near_tie [[0, 0]] 1 = Inr ([[Some 900060032]], [[0]])"
  by (simp add: search_def shape_def search_row_def knn_def ntotal_def near_tie_def Let_def
      near_tie_distances)

lemma near_tie_exact:
  "exact_l2sqr [0, 0] (ix_xb near_tie ! 1) < exact_l2sqr [0, 0] (ix_xb near_tie ! 0)"
  by (simp add: near_tie_def exact_l2sqr_def)

lemma search_empty_index:
  "search kern (IndexFlatL2 2) [[a, b]] 3 = Inr ([[None, None, None]], [[- 1, - 1, - 1]])"
  by (simp add: search_single search_row_def knn_def ntotal_def IndexFlatL2_def Let_def
      numeral_3_eq_3)

text \<open>
  Claim C3 as stated fails in four ways. The distances that order the result are the ones
  the kernel computes in float32, not the squared Euclidean distances themselves: from the
  origin the stored vector 1 of \<open>near_tie\<close> is strictly nearer than vector 0, yet both
  computed distances are 900060032 and the search with \<open>k = 1\<close> returns label 0. A search
  with \<open>k = 0\<close>, and one with a query of another dimension than the index's, fail the
  wrapper's assertion and return nothing. And a search of an empty index reports no error:
  it returns \<open>k\<close> labels \<open>-1\<close>.
\<close>

theorem search_claim_counterexample:
  "search fvec_L2sqr_ref near_tie [[0, 0]] 1 = Inr ([[Some 900060032]], [[0]]) \<and>
   exact_l2sqr [0, 0] (ix_xb near_tie ! 1) < exact_l2sqr [0, 0] (ix_xb near_tie ! 0) \<and>
   search fvec_L2sqr_ref three_vectors [[0, 0]] 0 = Inl AssertionError \<and>
   search fvec_L2sqr_ref three_vectors [[0, 0, 0]] 2 = Inl AssertionError \<and>
   search fvec_L2sqr_ref (IndexFlatL2 2) [[0, 0]] 3 =
     Inr ([[None, None, None]], [[- 1, - 1, - 1]])"
proof (intro conjI)
  show "search fvec_L2sqr_ref near_tie [[0, 0]] 1 = Inr ([[Some 900060032]], [[0]])"
    by (rule near_tie_search)
  show "exact_l2sqr [0, 0] (ix_xb near_tie ! 1) < exact_l2sqr [0, 0] (ix_xb near_tie ! 0)"
    by (rule near_tie_exact)
  show "search fvec_L2sqr_ref three_vectors [[0, 0]] 0 = Inl AssertionError"
    by (simp add: search_single)
  show "search fvec_L2sqr_ref three_vectors [[0, 0, 0]] 2 = Inl AssertionError"
    by (simp add: search_single three_vectors_def)
  show "search fvec_L2sqr_ref (IndexFlatL2 2) [[0, 0]] 3 =
     Inr ([[None, None, None]], [[- 1, - 1, - 1]])"
    by (rule search_empty_index)
qed

text \<open>
  Claim C3, amended. Whatever the kernel \<open>kern\<close> computes: for a query \<open>q\<close> of the index's
  dimension and \<open>1 \<le> k \<le> ntotal\<close>, \<open>search\<close> returns the labels of \<open>k\<close> different stored
  vectors, ordered by non-decreasing computed distance from \<open>q\<close>, together with these
  computed distances, and no vector left out has a smaller computed distance than a
  returned one. On an empty index the search of a query of the index's dimension with
  \<open>k \<ge> 1\<close> is no error and returns \<open>k\<close> labels \<open>-1\<close>; the retrieval of the question path, which
  looks the labels up in the chunk list, then raises \<open>IndexError\<close> when the chunk list is
  empty.
\<close>

theorem search_nearest_first:
  "(0 < k \<and> k \<le> ntotal ix \<and> length q = ix_d ix \<longrightarrow>
     (\<exists>near.
        search kern ix [q] k =
          Inr ([map (\<lambda>i. Some (kern q (ix_xb ix ! i))) near], [map int near]) \<and>
        length near = k \<and> distinct near \<and> (\<forall>l\<in>set near. l < ntotal ix) \<and>
        sorted (map (\<lambda>i. kern q (ix_xb ix ! i)) near) \<and>
        (\<forall>j<ntotal ix. j \<notin> set near \<longrightarrow>
           (\<forall>l\<in>set near. kern q (ix_xb ix ! l) \<le> kern q (ix_xb ix ! j))))) \<and>
   (0 < k \<and> ntotal ix = 0 \<and> length q = ix_d ix \<longrightarrow>
      search kern ix [q] k = Inr ([replicate k None], [replicate k (- 1)])) \<and>
   (ntotal ix = 0 \<and> length (embed env question) = ix_d ix \<longrightarrow>
      retrieve_context env [] ix question = Inl IndexError)"
proof (intro conjI impI)
  assume h: "0 < k \<and> k \<le> ntotal ix \<and> length q = ix_d ix"
  let ?near = "knn kern ix q k"
  have len: "length ?near = k" using h by (simp add: knn_length)
  have s: "search kern ix [q] k =
      Inr ([map (\<lambda>i. Some (kern q (ix_xb ix ! i))) ?near], [map int ?near])"
    using h by (simp add: search_single search_row_labels search_row_distances)
  have far: "\<forall>j<ntotal ix. j \<notin> set ?near \<longrightarrow>
      (\<forall>l\<in>set ?near. kern q (ix_xb ix ! l) \<le> kern q (ix_xb ix ! j))"
    by (auto intro: knn_nearest)
  have rng: "\<forall>l\<in>set ?near. l < ntotal ix" by (auto intro: knn_range)
  from s len far rng knn_distinct [of kern ix q k] knn_sorted [of kern q ix k]
  show "\<exists>near.
        search kern ix [q] k =
          Inr ([map (\<lambda>i. Some (kern q (ix_xb ix ! i))) near], [map int near]) \<and>
        length near = k \<and> distinct near \<and> (\<forall>l\<in>set near. l < ntotal ix) \<and>
        sorted (map (\<lambda>i. kern q (ix_xb ix ! i)) near) \<and>
        (\<forall>j<ntotal ix. j \<notin> set near \<longrightarrow>
           (\<forall>l\<in>set near. kern q (ix_xb ix ! l) \<le> kern q (ix_xb ix ! j)))"
    by (intro exI [of _ ?near] conjI)
next
  assume h: "0 < k \<and> ntotal ix = 0 \<and> length q = ix_d ix"
  then have "knn kern ix q k = []" by (simp add: knn_def)
  with h show "search kern ix [q] k = Inr ([replicate k None], [replicate k (- 1)])"
    by (simp add: search_single search_row_def Let_def)
next
  assume h: "ntotal ix = 0 \<and> length (embed env question) = ix_d ix"
  then have "knn (fvec_L2sqr env) ix (embed env question) 3 = []" by (simp add: knn_def)
  with h show "retrieve_context env [] ix question = Inl IndexError"
    by (simp add: retrieve_context_def encode_def search_single search_row_def Let_def
        numeral_3_eq_3 getitem_def)
qed

theorem search_nearest_first_witness:
  "(0::nat) < 2 \<and> 2 \<le> ntotal three_vectors \<and> length [0, 0::int] = ix_d three_vectors \<and>
   search fvec_L2sqr_ref three_vectors [[0, 0]] 2 = Inr ([[Some 2, Some 4]], [[1, 2]]) \<and>
   fvec_L2sqr_ref [0, 0] (ix_xb three_vectors ! 1) \<le>
     fvec_L2sqr_ref [0, 0] (ix_xb three_vectors ! 2) \<and>
   fvec_L2sqr_ref [0, 0] (ix_xb three_vectors ! 2) \<le>
     fvec_L2sqr_ref [0, 0] (ix_xb three_vectors ! 0) \<and>
   (0::nat) < 3 \<and> ntotal (IndexFlatL2 2 :: int index) = 0 \<and>
   length [0, 0::int] = ix_d (IndexFlatL2 2 :: int index) \<and>
   length (embed scenario_env scenario_question) = ix_d (IndexFlatL2 2 :: int index) \<and>
   search fvec_L2sqr_ref (IndexFlatL2 2) [[0, 0]] 3 =
     Inr ([replicate 3 None], [replicate 3 (- 1)]) \<and>
   retrieve_context scenario_env [] (IndexFlatL2 2) scenario_question = Inl IndexError"
proof -
  have a: "(0::nat) < 2 \<and> 2 \<le> ntotal three_vectors \<and> length [0, 0::int] = ix_d three_vectors"
    by (simp add: three_vectors_def ntotal_def)
  have b: "(0::nat) < 3 \<and> ntotal (IndexFlatL2 2 :: int index) = 0 \<and>
      length [0, 0::int] = ix_d (IndexFlatL2 2 :: int index)"
    by (simp add: IndexFlatL2_def ntotal_def)
  have c: "ntotal (IndexFlatL2 2 :: int index) = 0 \<and>
      length (embed scenario_env scenario_question) = ix_d (IndexFlatL2 2 :: int index)"
    by (simp add: IndexFlatL2_def ntotal_def scenario_env_def)
  note t1 = search_nearest_first [of 2 three_vectors "[0, 0]" fvec_L2sqr_ref]
  note t2 = search_nearest_first
    [of 3 "IndexFlatL2 2" "[0, 0]" fvec_L2sqr_ref scenario_env scenario_question]
  from t1 a
  obtain near where s: "search fvec_L2sqr_ref three_vectors [[0, 0]] 2 =
      Inr ([map (\<lambda>i. Some (fvec_L2sqr_ref [0, 0] (ix_xb three_vectors ! i))) near],
           [map int near])"
    and o: "sorted (map (\<lambda>i. fvec_L2sqr_ref [0, 0] (ix_xb three_vectors ! i)) near)"
    and f: "\<forall>j<ntotal three_vectors. j \<notin> set near \<longrightarrow>
         (\<forall>l\<in>set near. fvec_L2sqr_ref [0, 0] (ix_xb three_vectors ! l) \<le>
            fvec_L2sqr_ref [0, 0] (ix_xb three_vectors ! j))"
    by blast
  from s have "map int near = [1, 2]"
    by (simp only: three_vectors_search sum.inject prod.inject list.inject)
  then have near: "near = [1, 2]" by (auto simp: map_eq_Cons_conv)
  from o near have le1: "fvec_L2sqr_ref [0, 0] (ix_xb three_vectors ! 1) \<le>
     fvec_L2sqr_ref [0, 0] (ix_xb three_vectors ! 2)"
    by simp
  from f near a have le2: "fvec_L2sqr_ref [0, 0] (ix_xb three_vectors ! 2) \<le>
     fvec_L2sqr_ref [0, 0] (ix_xb three_vectors ! 0)"
    by simp
  from t2 b have s3: "search fvec_L2sqr_ref (IndexFlatL2 2) [[0, 0]] 3 =
     Inr ([replicate 3 None], [replicate 3 (- 1)])"
    by blast
  from t2 c have r: "retrieve_context scenario_env [] (IndexFlatL2 2) scenario_question =
      Inl IndexError"
    by blast
  from a b c le1 le2 s3 r three_vectors_search show ?thesis by (intro conjI) simp_all
qed

subsection \<open>Invariants of the cache\<close>

lemma every_entry_update:
  "list_all (\<lambda>(path, f). Q f) al \<Longrightarrow> Q v \<Longrightarrow> list_all (\<lambda>(path, f). Q f) (AList.update k v al)"
  by (induction al) auto

lemma every_entry_lookup:
  "every_entry P w \<Longrightarrow> map_of (files w) k = Some (Pickle doc) \<Longrightarrow> P doc"
  unfolding every_entry_def list_all_iff by (auto dest!: map_of_SomeD)

lemma process_pdf_files:
  assumes "process_pdf m env p w = (r, w')"
  shows "files w' =
     (case (map_of (files w) (cache_path p), r) of
        (None, Inr doc) \<Rightarrow> AList.update (cache_path p) (Pickle doc) (files w)
      | _ \<Rightarrow> files w)"
proof (cases "map_of (files w) (cache_path p)")
  case (Some f)
  with assms show ?thesis by (auto simp: process_pdf_def)
next
  case None
  obtain r1 w1 where ex: "extract_text_from_pdf m env p w = (r1, w1)"
    by (cases "extract_text_from_pdf m env p w")
  have fw1: "files w1 = files w" using ex by (rule extract_text_files)
  from assms None ex fw1 show ?thesis
    by (auto simp: process_pdf_def Let_def called_def split: sum.splits)
qed

lemma every_entry_process_pdf:
  assumes inv: "every_entry P w" and run: "process_pdf m env p w = (r, w')"
    and res: "\<And>doc. map_of (files w) (cache_path p) = None \<Longrightarrow> r = Inr doc \<Longrightarrow> P doc"
  shows "every_entry P w'"
proof (cases "map_of (files w) (cache_path p) = None \<and> \<not> isl r")
  case True
  then obtain doc where r: "r = Inr doc" and miss: "map_of (files w) (cache_path p) = None"
    by (cases r) auto
  from process_pdf_files [OF run] r miss
  have "files w' = AList.update (cache_path p) (Pickle doc) (files w)" by simp
  moreover have "P doc" using res miss r by blast
  ultimately show ?thesis
    using inv every_entry_update [of "\<lambda>f. case f of Pickle doc \<Rightarrow> P doc | Garbage \<Rightarrow> True"
        "files w" "Pickle doc" "cache_path p"]
    by (simp add: every_entry_def)
next
  case False
  with process_pdf_files [OF run] have "files w' = files w"
    by (cases "map_of (files w) (cache_path p)"; cases r) auto
  with inv show ?thesis by (simp add: every_entry_def)
qed

lemma process_pdf_miss_doc:
  assumes miss: "map_of (files w) (cache_path p) = None"
    and ok: "process_pdf m env p w = (Inr doc, w')"
  shows "nonempty_doc doc \<and> embedded_doc env doc"
proof -
  obtain r w1 where ex: "extract_text_from_pdf m env p w = (r, w1)"
    by (cases "extract_text_from_pdf m env p w")
  from miss ok ex obtain t where r: "r = Inr t"
    by (cases r) (auto simp: process_pdf_def)
  from miss ok ex r show ?thesis
    by (auto simp: process_pdf_def Let_def encode_def shape_def getitem_def add_def IndexFlatL2_def
        nonempty_doc_def embedded_doc_def ntotal_def
        split: list.splits if_splits sum.splits)
qed

lemma process_pdf_empty_chunks:
  assumes miss: "map_of (files w) (cache_path p) = None"
    and ex: "extract_text_from_pdf m env p w = (Inr t, w1)"
    and empty: "split_text env text_splitter t = []"
  shows "process_pdf m env p w = (Inl IndexError, called (Call_encode []) (called (Call_split_text t) w1))"
  using assms by (simp add: process_pdf_def Let_def encode_def shape_def getitem_def)

lemma blank_extract:
  "extract_text_from_pdf m blank_env p w =
     (Inr [], st (St_success (ascii ''Text extraction complete!''))
        (st (St_progress 0 1) (called (Call_convert_from_path p) w)))"
  by (simp add: extract_text_from_pdf_def blank_env_def scenario_env_def)

lemma search_self:
  assumes i: "i < ntotal ix" and q: "ix_xb ix ! i = q" and d: "length q = ix_d ix"
    and least: "\<forall>y. kern q q \<le> kern q y"
  shows "\<exists>l. search kern ix [q] 1 = Inr ([[Some (kern q q)]], [[int l]]) \<and> l < ntotal ix \<and>
     kern q (ix_xb ix ! l) = kern q (ix_xb ix ! i)"
proof -
  have "length (knn kern ix q 1) = 1" using i by (simp add: knn_length)
  then obtain l where l: "knn kern ix q 1 = [l]"
    by (cases "knn kern ix q 1") auto
  have self: "kern q (ix_xb ix ! i) = kern q q" using q by simp
  have lt: "l < ntotal ix" using knn_range [of l kern ix q 1] l by simp
  have "kern q (ix_xb ix ! l) \<le> kern q (ix_xb ix ! i)"
  proof (cases "i = l")
    case True
    then show ?thesis by simp
  next
    case False
    with l have "i \<notin> set (knn kern ix q 1)" by simp
    from knn_nearest [OF i this, of l] l show ?thesis by simp
  qed
  with self least have eq: "kern q (ix_xb ix ! l) = kern q q" by (auto intro: antisym)
  have "search kern ix [q] 1 = Inr ([[Some (kern q q)]], [[int l]])"
    using d i l eq by (simp add: search_single search_row_labels search_row_distances)
  with lt eq self show ?thesis by simp
qed

lemma embedded_doc_rows:
  assumes e: "embedded_doc env (chunks, ix)"
  shows "ntotal ix = length chunks \<and> (\<forall>i<length chunks. ix_xb ix ! i = embed env (chunks ! i))"
  using e by (simp add: embedded_doc_def encode_def ntotal_def)

lemma embedded_doc_self_retrieval:
  assumes e: "embedded_doc env (chunks, ix)" and i: "i < length chunks"
    and least: "\<forall>x y. fvec_L2sqr env x x \<le> fvec_L2sqr env x y"
  shows "\<exists>l. search (fvec_L2sqr env) ix (encode env [chunks ! i]) 1 =
           Inr ([[Some (fvec_L2sqr env (ix_xb ix ! i) (ix_xb ix ! i))]], [[int l]]) \<and>
         l < ntotal ix \<and>
         fvec_L2sqr env (embed env (chunks ! i)) (ix_xb ix ! l) =
           fvec_L2sqr env (embed env (chunks ! i)) (ix_xb ix ! i)"
proof -
  from e have xb: "ix_xb ix = map (embed env) chunks"
    by (simp add: embedded_doc_def encode_def)
  from e have dims: "list_all (\<lambda>row. length row = ix_d ix) (ix_xb ix)"
    unfolding embedded_doc_def snd_conv fst_conv by blast
  from xb have n: "ntotal ix = length chunks" by (simp add: ntotal_def)
  from xb i have row: "ix_xb ix ! i = embed env (chunks ! i)" by simp
  from dims i n have d: "length (embed env (chunks ! i)) = ix_d ix"
    by (simp add: list_all_length ntotal_def row [symmetric])
  from i n have i': "i < ntotal ix" by simp
  from least have "\<forall>y. fvec_L2sqr env (embed env (chunks ! i)) (embed env (chunks ! i)) \<le>
      fvec_L2sqr env (embed env (chunks ! i)) y" by simp
  from search_self [where kern = "fvec_L2sqr env", OF i' row d this] row
  show ?thesis by (simp add: encode_def)
qed

lemma f32_nonneg: "0 \<le> n \<Longrightarrow> 0 \<le> f32 n"
  by (simp add: f32_def Let_def sgn_if)

lemma f32_zero: "f32 0 = 0"
  by (simp add: f32_def)

lemma fvec_loop_nonneg:
  "0 \<le> acc \<Longrightarrow>
   0 \<le> foldl (\<lambda>res (a, b). let tmp = f32 (a - b) in f32 (res + f32 (tmp * tmp))) acc xs"
proof (induction xs arbitrary: acc)
  case Nil
  then show ?case by simp
next
  case (Cons ab xs)
  obtain a b where ab: "ab = (a, b)" by (cases ab)
  have "0 \<le> f32 (acc + f32 (f32 (a - b) * f32 (a - b)))"
    using Cons.prems by (intro f32_nonneg add_nonneg_nonneg) simp_all
  from Cons.IH [OF this] show ?case by (simp add: ab Let_def)
qed

lemma fvec_L2sqr_ref_nonneg: "0 \<le> fvec_L2sqr_ref x y"
  unfolding fvec_L2sqr_ref_def by (rule fvec_loop_nonneg) simp

lemma fvec_L2sqr_ref_self: "fvec_L2sqr_ref x x = 0"
  unfolding fvec_L2sqr_ref_def by (induction x) (simp_all add: f32_zero)

lemma fvec_L2sqr_ref_least: "fvec_L2sqr_ref x x \<le> fvec_L2sqr_ref x y"
  by (simp add: fvec_L2sqr_ref_self fvec_L2sqr_ref_nonneg)

lemma chunked_extract:
  "extract_text_from_pdf m chunked_env p w =
     (Inr scenario_text,
      w\<lparr>screen := screen w @ [St_progress 0 1, St_progress 1 2, St_progress 2 2,
                 St_success (ascii ''Text extraction complete!'')],
        calls := calls w @
          [Call_convert_from_path p, Call_image_to_string 0, Call_image_to_string 1]\<rparr>)"
  by (simp add: extract_text_from_pdf_def chunked_env_def scenario_env_def st_def called_def
      scenario_text_def)

lemma chunked_process:
  "map_of (files w) (cache_path p) = None \<Longrightarrow>
   \<exists>w'. process_pdf m chunked_env p w = (Inr chunked_doc, w') \<and>
        files w' = AList.update (cache_path p) (Pickle chunked_doc) (files w)"
  apply (simp add: process_pdf_def chunked_extract Let_def)
  apply (simp add: chunked_env_def scenario_env_def scenario_text_nonempty chunked_doc_def
      encode_def shape_def getitem_def add_def IndexFlatL2_def called_def page_one_def
      page_two_def)
  apply (cases w, simp add: numeral_2_eq_2)
  done

lemma scenario_cache_path: "cache_path PDF_PATH = ascii ''cache/bangla_document.pdf.pkl''"
  by code_simp

lemma stocked_world_embedded: "every_entry (embedded_doc chunked_env) stocked_world"
  by (simp add: every_entry_def stocked_world_def embedded_doc_def scenario_doc_def encode_def
      chunked_env_def scenario_env_def scenario_text_length)

lemma stocked_world_miss: "map_of (files stocked_world) (cache_path PDF_PATH) = None"
  by (simp add: stocked_world_def scenario_cache_path ascii_def)

lemma chunked_searches:
  "search (fvec_L2sqr chunked_env) (snd chunked_doc) (encode chunked_env [fst chunked_doc ! 0]) 1 =
     Inr ([[Some 0]], [[0]]) \<and>
   search (fvec_L2sqr chunked_env) (snd chunked_doc) (encode chunked_env [fst chunked_doc ! 1]) 1 =
     Inr ([[Some 0]], [[1]]) \<and>
   search (fvec_L2sqr chunked_env) (snd chunked_doc) (encode chunked_env [fst chunked_doc ! 2]) 1 =
     Inr ([[Some 0]], [[2]])"
  by (simp add: search_def shape_def search_row_def knn_def ntotal_def chunked_doc_def
      chunked_env_def scenario_env_def encode_def page_one_def page_two_def Let_def
      chunked_distances)

text \<open>
  Claim C10. When the extracted text yields no chunk, \<open>process_pdf\<close> raises \<open>IndexError\<close> at
  \<open>embeddings.shape[1]\<close>, the shape of an empty batch having one component only; this is
  before the index is built, and the files are as before. So a pair that \<open>process_pdf\<close>
  computes and stores has at least one chunk and one vector, and if every pickled entry of
  the cache is non-empty before a call, so is every entry after it.
\<close>

theorem empty_chunks_index_error:
  "(map_of (files w) (cache_path p) = None \<and> extract_text_from_pdf m env p w = (Inr t, w1) \<and>
    split_text env text_splitter t = [] \<longrightarrow>
      process_pdf m env p w =
        (Inl IndexError, called (Call_encode []) (called (Call_split_text t) w1)) \<and>
      files (called (Call_encode []) (called (Call_split_text t) w1)) = files w) \<and>
   (map_of (files w) (cache_path p) = None \<and> process_pdf m env p w = (Inr doc, w') \<longrightarrow>
      fst doc \<noteq> [] \<and> 1 \<le> ntotal (snd doc) \<and>
      files w' = AList.update (cache_path p) (Pickle doc) (files w)) \<and>
   (every_entry nonempty_doc w \<and> process_pdf m env p w = (r, w') \<longrightarrow> every_entry nonempty_doc w')"
proof (intro conjI impI)
  assume h: "map_of (files w) (cache_path p) = None \<and>
    extract_text_from_pdf m env p w = (Inr t, w1) \<and> split_text env text_splitter t = []"
  then show "process_pdf m env p w =
        (Inl IndexError, called (Call_encode []) (called (Call_split_text t) w1))"
    by (simp add: process_pdf_empty_chunks)
  from h have "extract_text_from_pdf m env p w = (Inr t, w1)" by simp
  then have "files w1 = files w" by (rule extract_text_files)
  then show "files (called (Call_encode []) (called (Call_split_text t) w1)) = files w"
    by (simp add: called_def)
next
  assume h: "map_of (files w) (cache_path p) = None \<and> process_pdf m env p w = (Inr doc, w')"
  then have "nonempty_doc doc" using process_pdf_miss_doc [of w p m env doc w'] by simp
  then show "fst doc \<noteq> []" and "1 \<le> ntotal (snd doc)" by (simp_all add: nonempty_doc_def)
  from h process_pdf_files [of m env p w "Inr doc" w']
  show "files w' = AList.update (cache_path p) (Pickle doc) (files w)" by simp
next
  assume h: "every_entry nonempty_doc w \<and> process_pdf m env p w = (r, w')"
  then have inv: "every_entry nonempty_doc w" and run: "process_pdf m env p w = (r, w')"
    by simp_all
  show "every_entry nonempty_doc w'"
  proof (rule every_entry_process_pdf [OF inv run])
    fix doc assume "map_of (files w) (cache_path p) = None" and "r = Inr doc"
    with run show "nonempty_doc doc" using process_pdf_miss_doc [of w p m env doc w'] by simp
  qed
qed


theorem empty_chunks_index_error_witness:
  "map_of (files fresh_world) (cache_path PDF_PATH) = None \<and>
   (\<exists>w1. extract_text_from_pdf App blank_env PDF_PATH fresh_world = (Inr [], w1) \<and>
      split_text blank_env text_splitter [] = [] \<and>
      process_pdf App blank_env PDF_PATH fresh_world =
        (Inl IndexError, called (Call_encode []) (called (Call_split_text []) w1)) \<and>
      files (called (Call_encode []) (called (Call_split_text []) w1)) = files fresh_world) \<and>
   every_entry nonempty_doc fresh_world \<and>
   (\<exists>w'. process_pdf App scenario_env PDF_PATH fresh_world = (Inr scenario_doc, w') \<and>
      fst scenario_doc \<noteq> [] \<and> 1 \<le> ntotal (snd scenario_doc) \<and>
      files w' = AList.update (cache_path PDF_PATH) (Pickle scenario_doc) (files fresh_world) \<and>
      every_entry nonempty_doc w')"
proof -
  have miss: "map_of (files fresh_world) (cache_path PDF_PATH) = None"
    by (simp add: fresh_world_def)
  have inv: "every_entry nonempty_doc fresh_world"
    by (simp add: every_entry_def fresh_world_def)
  obtain w1 where ex: "extract_text_from_pdf App blank_env PDF_PATH fresh_world = (Inr [], w1)"
    by (simp add: blank_extract)
  have sp: "split_text blank_env text_splitter [] = []"
    by (simp add: blank_env_def scenario_env_def)
  from empty_chunks_index_error [of fresh_world PDF_PATH App blank_env "[]" w1] miss ex sp
  have a: "process_pdf App blank_env PDF_PATH fresh_world =
        (Inl IndexError, called (Call_encode []) (called (Call_split_text []) w1))"
    and b: "files (called (Call_encode []) (called (Call_split_text []) w1)) = files fresh_world"
    by blast+
  obtain w' where run: "process_pdf App scenario_env PDF_PATH fresh_world = (Inr scenario_doc, w')"
    using scenario_process [OF miss, of App] by simp
  from empty_chunks_index_error [of fresh_world PDF_PATH App scenario_env _ _ scenario_doc w'
      "Inr scenario_doc"] miss run inv
  have c: "fst scenario_doc \<noteq> []" and d: "1 \<le> ntotal (snd scenario_doc)"
    and e: "files w' = AList.update (cache_path PDF_PATH) (Pickle scenario_doc) (files fresh_world)"
    and f: "every_entry nonempty_doc w'"
    by blast+
  from miss ex sp a b inv run c d e f show ?thesis by blast
qed


text \<open>
  Claim C4. Let the pickled entries of the cache be embedded by the embedder in use. Then
  for a pair (chunks, index) returned by \<open>process_pdf\<close>, computed or loaded, the index holds
  as many vectors as there are chunks and vector \<open>i\<close> is the embedding of chunk \<open>i\<close>; the
  entries of the cache are embedded after the call as well. If moreover the kernel never
  computes a smaller distance from a vector to another vector than from the vector to
  itself (the float32 reference kernel is such a kernel, \<open>fvec_L2sqr_ref_least\<close>), a search
  with the embedding of chunk \<open>i\<close> and \<open>k=1\<close> returns, at the computed distance of vector \<open>i\<close>
  from itself, a label whose vector is computed exactly as far from the query as vector \<open>i\<close>
  is: \<open>i\<close> itself or a vector tied with it.
\<close>

theorem index_correspondence:
  "every_entry (embedded_doc env) w \<and> process_pdf m env p w = (Inr (chunks, ix), w') \<longrightarrow>
     every_entry (embedded_doc env) w' \<and> ntotal ix = length chunks \<and>
     (\<forall>i<length chunks. ix_xb ix ! i = embed env (chunks ! i)) \<and>
     ((\<forall>x y. fvec_L2sqr env x x \<le> fvec_L2sqr env x y) \<longrightarrow>
      (\<forall>i<length chunks.
         \<exists>l. search (fvec_L2sqr env) ix (encode env [chunks ! i]) 1 =
               Inr ([[Some (fvec_L2sqr env (ix_xb ix ! i) (ix_xb ix ! i))]], [[int l]]) \<and>
             l < ntotal ix \<and>
             fvec_L2sqr env (embed env (chunks ! i)) (ix_xb ix ! l) =
               fvec_L2sqr env (embed env (chunks ! i)) (ix_xb ix ! i)))"
proof
  assume h: "every_entry (embedded_doc env) w \<and> process_pdf m env p w = (Inr (chunks, ix), w')"
  then have inv: "every_entry (embedded_doc env) w"
    and run: "process_pdf m env p w = (Inr (chunks, ix), w')" by simp_all
  have e: "embedded_doc env (chunks, ix)"
  proof (cases "map_of (files w) (cache_path p)")
    case None
    with run show ?thesis using process_pdf_miss_doc [of w p m env "(chunks, ix)" w'] by simp
  next
    case (Some f)
    with run have "f = Pickle (chunks, ix)" by (cases f) (simp_all add: process_pdf_def)
    with Some inv show ?thesis using every_entry_lookup by blast
  qed
  have inv': "every_entry (embedded_doc env) w'"
  proof (rule every_entry_process_pdf [OF inv run])
    fix doc assume "map_of (files w) (cache_path p) = None" and "Inr (chunks, ix) = Inr doc"
    with e show "embedded_doc env doc" by simp
  qed
  from inv' embedded_doc_rows [OF e] embedded_doc_self_retrieval [OF e]
  show "every_entry (embedded_doc env) w' \<and> ntotal ix = length chunks \<and>
     (\<forall>i<length chunks. ix_xb ix ! i = embed env (chunks ! i)) \<and>
     ((\<forall>x y. fvec_L2sqr env x x \<le> fvec_L2sqr env x y) \<longrightarrow>
      (\<forall>i<length chunks.
         \<exists>l. search (fvec_L2sqr env) ix (encode env [chunks ! i]) 1 =
               Inr ([[Some (fvec_L2sqr env (ix_xb ix ! i) (ix_xb ix ! i))]], [[int l]]) \<and>
             l < ntotal ix \<and>
             fvec_L2sqr env (embed env (chunks ! i)) (ix_xb ix ! l) =
               fvec_L2sqr env (embed env (chunks ! i)) (ix_xb ix ! i)))"
    by blast
qed

theorem index_correspondence_witness:
  "every_entry (embedded_doc chunked_env) stocked_world \<and>
   (\<exists>w1 w2.
      process_pdf App chunked_env PDF_PATH stocked_world = (Inr chunked_doc, w1) \<and>
      process_pdf App chunked_env PDF_PATH w1 = (Inr chunked_doc, w2) \<and>
      map_of (files stocked_world) (cache_path PDF_PATH) = None \<and>
      map_of (files w1) (cache_path PDF_PATH) = Some (Pickle chunked_doc) \<and>
      map_of (files w1) (ascii ''cache/other.pdf.pkl'') = Some (Pickle scenario_doc) \<and>
      every_entry (embedded_doc chunked_env) w1 \<and>
      every_entry (embedded_doc chunked_env) w2) \<and>
   length (fst chunked_doc) = 3 \<and> ntotal (snd chunked_doc) = 3 \<and>
   ix_xb (snd chunked_doc) ! 0 = embed chunked_env (fst chunked_doc ! 0) \<and>
   ix_xb (snd chunked_doc) ! 1 = embed chunked_env (fst chunked_doc ! 1) \<and>
   ix_xb (snd chunked_doc) ! 2 = embed chunked_env (fst chunked_doc ! 2) \<and>
   (\<forall>x y. fvec_L2sqr chunked_env x x \<le> fvec_L2sqr chunked_env x y) \<and>
   search (fvec_L2sqr chunked_env) (snd chunked_doc) (encode chunked_env [fst chunked_doc ! 0]) 1 =
     Inr ([[Some 0]], [[0]]) \<and>
   search (fvec_L2sqr chunked_env) (snd chunked_doc) (encode chunked_env [fst chunked_doc ! 1]) 1 =
     Inr ([[Some 0]], [[1]]) \<and>
   search (fvec_L2sqr chunked_env) (snd chunked_doc) (encode chunked_env [fst chunked_doc ! 2]) 1 =
     Inr ([[Some 0]], [[2]]) \<and>
   fvec_L2sqr chunked_env (ix_xb (snd chunked_doc) ! 1) (ix_xb (snd chunked_doc) ! 1) = 0"
proof -
  let ?chunks = "fst chunked_doc" and ?ix = "snd chunked_doc"
  have doc: "chunked_doc = (?chunks, ?ix)" by simp
  have len: "length ?chunks = 3" by (simp add: chunked_doc_def)
  have least: "\<forall>x y. fvec_L2sqr chunked_env x x \<le> fvec_L2sqr chunked_env x y"
    by (simp add: chunked_env_def scenario_env_def fvec_L2sqr_ref_least)
  from chunked_process [OF stocked_world_miss, of App]
  obtain w1 where run1: "process_pdf App chunked_env PDF_PATH stocked_world = (Inr chunked_doc, w1)"
    and f1: "files w1 =
      AList.update (cache_path PDF_PATH) (Pickle chunked_doc) (files stocked_world)"
    by blast
  from f1 have hit: "map_of (files w1) (cache_path PDF_PATH) = Some (Pickle chunked_doc)"
    by (simp add: update_conv')
  from f1 have other: "map_of (files w1) (ascii ''cache/other.pdf.pkl'') = Some (Pickle scenario_doc)"
    by (simp add: update_conv' stocked_world_def scenario_cache_path ascii_def)
  from process_pdf_hit [OF hit, of App chunked_env]
  have run2: "process_pdf App chunked_env PDF_PATH w1 = (Inr chunked_doc, w1)"
    by simp
  from run1 have run1': "process_pdf App chunked_env PDF_PATH stocked_world =
      (Inr (?chunks, ?ix), w1)" by simp
  from run2 have run2': "process_pdf App chunked_env PDF_PATH w1 = (Inr (?chunks, ?ix), w1)"
    by simp
  note computed = index_correspondence
    [of chunked_env stocked_world App PDF_PATH ?chunks ?ix w1]
  note loaded = index_correspondence [of chunked_env w1 App PDF_PATH ?chunks ?ix w1]
  from computed stocked_world_embedded run1'
  have inv1: "every_entry (embedded_doc chunked_env) w1"
    and n: "ntotal ?ix = length ?chunks"
    and rows: "\<forall>i<length ?chunks. ix_xb ?ix ! i = embed chunked_env (?chunks ! i)"
    by blast+
  from loaded inv1 run2' least
  have self: "\<forall>i<length ?chunks.
         \<exists>l. search (fvec_L2sqr chunked_env) ?ix (encode chunked_env [?chunks ! i]) 1 =
               Inr ([[Some (fvec_L2sqr chunked_env (ix_xb ?ix ! i) (ix_xb ?ix ! i))]], [[int l]]) \<and>
             l < ntotal ?ix \<and>
             fvec_L2sqr chunked_env (embed chunked_env (?chunks ! i)) (ix_xb ?ix ! l) =
               fvec_L2sqr chunked_env (embed chunked_env (?chunks ! i)) (ix_xb ?ix ! i)"
    by blast
  from len have "1 < length ?chunks" by simp
  with self obtain l where
    "search (fvec_L2sqr chunked_env) ?ix (encode chunked_env [?chunks ! 1]) 1 =
       Inr ([[Some (fvec_L2sqr chunked_env (ix_xb ?ix ! 1) (ix_xb ?ix ! 1))]], [[int l]])"
    by blast
  with chunked_searches
  have zero: "fvec_L2sqr chunked_env (ix_xb ?ix ! 1) (ix_xb ?ix ! 1) = 0" by simp
  from rows len have r0: "ix_xb ?ix ! 0 = embed chunked_env (?chunks ! 0)"
    and r1: "ix_xb ?ix ! 1 = embed chunked_env (?chunks ! 1)"
    and r2: "ix_xb ?ix ! 2 = embed chunked_env (?chunks ! 2)"
    by simp_all
  from n len have n3: "ntotal ?ix = 3" by simp
  have runs: "\<exists>w1 w2.
      process_pdf App chunked_env PDF_PATH stocked_world = (Inr chunked_doc, w1) \<and>
      process_pdf App chunked_env PDF_PATH w1 = (Inr chunked_doc, w2) \<and>
      map_of (files stocked_world) (cache_path PDF_PATH) = None \<and>
      map_of (files w1) (cache_path PDF_PATH) = Some (Pickle chunked_doc) \<and>
      map_of (files w1) (ascii ''cache/other.pdf.pkl'') = Some (Pickle scenario_doc) \<and>
      every_entry (embedded_doc chunked_env) w1 \<and>
      every_entry (embedded_doc chunked_env) w2"
    using run1 run2 stocked_world_miss hit other inv1 by blast
  from stocked_world_embedded runs len n3 r0 r1 r2 least chunked_searches zero
  show ?thesis by (intro conjI) simp_all
qed

subsection \<open>Retrieval\<close>

lemma getitem_nat: "i < length xs \<Longrightarrow> getitem xs (int i) = Inr (xs ! i)"
  by (simp add: getitem_def)

lemma getitem_minus_one: "xs \<noteq> [] \<Longrightarrow> getitem xs (- 1) = Inr (last xs)"
proof (cases xs rule: rev_cases)
  case Nil
  assume "xs \<noteq> []"
  with Nil show ?thesis by simp
next
  case (snoc ys y)
  then show ?thesis by (simp add: getitem_def)
qed

lemma getitem_minus_one_empty: "getitem [] (- 1) = Inl IndexError"
  by (simp add: getitem_def)

lemma getitems_append:
  "getitems xs (a @ b) =
     (case getitems xs a of
        Inl e \<Rightarrow> Inl e
      | Inr ra \<Rightarrow> (case getitems xs b of Inl e \<Rightarrow> Inl e | Inr rb \<Rightarrow> Inr (ra @ rb)))"
  by (induction a) (auto split: sum.splits)

lemma getitems_labels:
  "\<forall>i\<in>set near. i < length xs \<Longrightarrow> getitems xs (map int near) = Inr (map (\<lambda>i. xs ! i) near)"
  by (induction near) (simp_all add: getitem_nat)

lemma getitems_missing:
  "xs \<noteq> [] \<Longrightarrow> getitems xs (replicate n (- 1)) = Inr (replicate n (last xs))"
  by (induction n) (simp_all add: getitem_minus_one)

lemma retrieve_context_empty_document:
  "ntotal ix = 0 \<Longrightarrow> length (embed env question) = ix_d ix \<Longrightarrow>
   retrieve_context env [] ix question = Inl IndexError"
  by (simp add: retrieve_context_def encode_def search_single search_row_def knn_def Let_def
      getitem_def numeral_3_eq_3)

lemma all_labels:
  assumes "distinct near" and "length near = n" and "\<forall>i\<in>set near. i < n"
  shows "set near = {..<n}"
proof -
  from assms have "card (set near) = n" by (simp add: distinct_card)
  moreover from assms have "set near \<subseteq> {..<n}" by auto
  ultimately show ?thesis by (simp add: card_subset_eq)
qed

lemma retrieve_context_padded:
  assumes ne: "chunks \<noteq> []" and n: "ntotal ix = length chunks"
    and d: "length (embed env question) = ix_d ix"
  shows "\<exists>D near.
      search (fvec_L2sqr env) ix (encode env [question]) 3 =
        Inr (D, [map int near @ replicate (3 - length near) (- 1)]) \<and>
      length near = min 3 (length chunks) \<and> distinct near \<and> (\<forall>i\<in>set near. i < length chunks) \<and>
      retrieve_context env chunks ix question =
        Inr (join [10, 10] (map (\<lambda>i. chunks ! i) near @ replicate (3 - length near) (last chunks)))"
proof -
  let ?q = "embed env question"
  let ?near = "knn (fvec_L2sqr env) ix ?q 3"
  have s: "search (fvec_L2sqr env) ix (encode env [question]) 3 =
      Inr ([fst (search_row (fvec_L2sqr env) ix 3 ?q)],
           [map int ?near @ replicate (3 - length ?near) (- 1)])"
    using d by (simp add: encode_def search_single search_row_labels knn_length)
  have len: "length ?near = min 3 (length chunks)" using n by (simp add: knn_length)
  have rng: "\<forall>i\<in>set ?near. i < length chunks"
    using knn_range [of _ "fvec_L2sqr env" ix ?q 3] n by auto
  have g: "getitems chunks (map int ?near @ replicate (3 - length ?near) (- 1)) =
      Inr (map (\<lambda>i. chunks ! i) ?near @ replicate (3 - length ?near) (last chunks))"
    using rng ne by (simp add: getitems_append getitems_labels getitems_missing)
  have "retrieve_context env chunks ix question =
      Inr (join [10, 10] (map (\<lambda>i. chunks ! i) ?near @ replicate (3 - length ?near) (last chunks)))"
    unfolding retrieve_context_def s by (simp add: getitem_def g)
  with s len rng knn_distinct [of "fvec_L2sqr env" ix ?q 3] show ?thesis by blast
qed

lemma query_interface_answers:
  assumes "retrieve_context env chunks ix question = Inr context"
  shows "\<exists>a w'. query_interface m env chunks ix question key w = (Inr a, w')"
proof (cases "question \<noteq> [] \<and> key \<noteq> []")
  case False
  then show ?thesis by (auto simp: query_interface_def)
next
  case True
  let ?w2 = "called (Call_search 3) (called (Call_encode [question]) w)"
  obtain a w3 where q: "query_openai env (build_prompt m context question) ?w2 = (a, w3)"
    by (cases "query_openai env (build_prompt m context question) ?w2")
  with True assms show ?thesis
    by (cases a) (auto simp: query_interface_def Let_def)
qed

lemma single_label: "distinct near \<Longrightarrow> set near = {..<Suc 0} \<Longrightarrow> near = [0]"
proof -
  assume d: "distinct near" and s: "set near = {..<Suc 0}"
  from d s have "length near = 1" using distinct_card [of near] by simp
  then obtain x where "near = [x]" by (cases near) auto
  with s show ?thesis by auto
qed

text \<open>
  Claim C9. Let a loaded document have one or two chunks, as many vectors as chunks, and let
  the question embed to the index's dimension. The question path searches with \<open>k=3\<close>; the
  result row holds every label of the index once, nearest first, and \<open>-1\<close> in each of the
  \<open>3 - len(chunks)\<close> remaining slots. The lookup \<open>chunks[-1]\<close> is the last chunk, so the
  context is assembled from three chunks, the last chunk being there both under its own
  label and once for every missing slot; no \<open>IndexError\<close> is raised and the query
  interface ends without exception.
\<close>

theorem short_document_negative_index:
  "chunks \<noteq> [] \<and> length chunks < 3 \<and> ntotal ix = length chunks \<and>
   length (embed env question) = ix_d ix \<longrightarrow>
   (\<exists>D near.
      search (fvec_L2sqr env) ix (encode env [question]) 3 =
        Inr (D, [map int near @ replicate (3 - length chunks) (- 1)]) \<and>
      set near = {..<length chunks} \<and> distinct near \<and> 0 < 3 - length chunks \<and>
      retrieve_context env chunks ix question =
        Inr (join [10, 10]
          (map (\<lambda>i. chunks ! i) near @ replicate (3 - length chunks) (last chunks))) \<and>
      last chunks \<in> set (map (\<lambda>i. chunks ! i) near) \<and>
      length (map (\<lambda>i. chunks ! i) near @ replicate (3 - length chunks) (last chunks)) = 3) \<and>
   (\<exists>a w'. query_interface m env chunks ix question key w = (Inr a, w'))"
proof
  assume h: "chunks \<noteq> [] \<and> length chunks < 3 \<and> ntotal ix = length chunks \<and>
   length (embed env question) = ix_d ix"
  then have ne: "chunks \<noteq> []" and short: "length chunks < 3" and n: "ntotal ix = length chunks"
    and d: "length (embed env question) = ix_d ix" by simp_all
  from retrieve_context_padded [OF ne n d]
  obtain D near where
    s: "search (fvec_L2sqr env) ix (encode env [question]) 3 =
        Inr (D, [map int near @ replicate (3 - length near) (- 1)])"
    and len: "length near = min 3 (length chunks)" and dis: "distinct near"
    and rng: "\<forall>i\<in>set near. i < length chunks"
    and r: "retrieve_context env chunks ix question =
        Inr (join [10, 10] (map (\<lambda>i. chunks ! i) near @ replicate (3 - length near) (last chunks)))"
    by blast
  from len short have len': "length near = length chunks" by simp
  from all_labels [OF dis len' rng] have all: "set near = {..<length chunks}" .
  from ne have "length chunks - 1 \<in> {..<length chunks}" by simp
  with all have "length chunks - 1 \<in> set near" by simp
  then have "chunks ! (length chunks - 1) \<in> set (map (\<lambda>i. chunks ! i) near)" by simp
  with ne have dup: "last chunks \<in> set (map (\<lambda>i. chunks ! i) near)"
    by (simp add: last_conv_nth)
  from short have pos: "0 < 3 - length chunks" by simp
  from len' short have three:
    "length (map (\<lambda>i. chunks ! i) near @ replicate (3 - length chunks) (last chunks)) = 3"
    by simp
  from query_interface_answers [OF r] have q:
    "\<exists>a w'. query_interface m env chunks ix question key w = (Inr a, w')" .
  from s r len' all dis pos dup three q
  show "(\<exists>D near.
      search (fvec_L2sqr env) ix (encode env [question]) 3 =
        Inr (D, [map int near @ replicate (3 - length chunks) (- 1)]) \<and>
      set near = {..<length chunks} \<and> distinct near \<and> 0 < 3 - length chunks \<and>
      retrieve_context env chunks ix question =
        Inr (join [10, 10]
          (map (\<lambda>i. chunks ! i) near @ replicate (3 - length chunks) (last chunks))) \<and>
      last chunks \<in> set (map (\<lambda>i. chunks ! i) near) \<and>
      length (map (\<lambda>i. chunks ! i) near @ replicate (3 - length chunks) (last chunks)) = 3) \<and>
   (\<exists>a w'. query_interface m env chunks ix question key w = (Inr a, w'))"
    by (intro conjI exI [of _ D] exI [of _ near]) simp_all
qed


theorem short_document_negative_index_witness:
  "[scenario_text] \<noteq> [] \<and> length [scenario_text] < 3 \<and>
   ntotal \<lparr>ix_d = 2, ix_xb = [[33, 1 :: int]]\<rparr> = length [scenario_text] \<and>
   length (embed scenario_env scenario_question) = ix_d \<lparr>ix_d = 2, ix_xb = [[33, 1 :: int]]\<rparr> \<and>
   search (fvec_L2sqr scenario_env) \<lparr>ix_d = 2, ix_xb = [[33, 1]]\<rparr>
       (encode scenario_env [scenario_question]) 3 =
     Inr ([[Some 64, None, None]], [[0, - 1, - 1]]) \<and>
   retrieve_context scenario_env [scenario_text] \<lparr>ix_d = 2, ix_xb = [[33, 1]]\<rparr> scenario_question =
     Inr (join [10, 10] [scenario_text, scenario_text, scenario_text])"
proof -
  let ?ix = "\<lparr>ix_d = 2, ix_xb = [[33, 1 :: int]]\<rparr>"
  have a: "[scenario_text] \<noteq> [] \<and> length [scenario_text] < 3" by simp
  have b: "ntotal ?ix = length [scenario_text]" by (simp add: ntotal_def)
  have c: "length (embed scenario_env scenario_question) = ix_d ?ix"
    by (simp add: scenario_env_def)
  from short_document_negative_index [of "[scenario_text]" ?ix scenario_env scenario_question] a b c
  obtain D near where
    s: "search (fvec_L2sqr scenario_env) ?ix
         (encode scenario_env [scenario_question]) 3 =
        Inr (D, [map int near @ replicate (3 - length [scenario_text]) (- 1)])"
    and all: "set near = {..<length [scenario_text]}" and dis: "distinct near"
    and r: "retrieve_context scenario_env [scenario_text] ?ix scenario_question =
        Inr (join [10, 10]
          (map (\<lambda>i. [scenario_text] ! i) near @
           replicate (3 - length [scenario_text]) (last [scenario_text])))"
    by blast
  from all dis have near: "near = [0]" by (simp add: single_label)
  from r near have r': "retrieve_context scenario_env [scenario_text] ?ix scenario_question =
     Inr (join [10, 10] [scenario_text, scenario_text, scenario_text])"
    by (simp add: numeral_3_eq_3 numeral_2_eq_2)
  have s': "search (fvec_L2sqr scenario_env) ?ix
         (encode scenario_env [scenario_question]) 3 =
     Inr ([[Some 64, None, None]], [[0, - 1, - 1]])"
    by (simp add: encode_def scenario_env_def scenario_question_def search_single search_row_def
        knn_def ntotal_def fvec_L2sqr_ref_def f32_exact Let_def numeral_3_eq_3)
  from a b c s' r' show ?thesis by blast
qed

subsection \<open>Answer generation\<close>

lemma rev_dropWhile_takeWhile:
  "xs = rev (dropWhile P (rev xs)) @ rev (takeWhile P (rev xs))"
proof -
  have "rev xs = takeWhile P (rev xs) @ dropWhile P (rev xs)" by simp
  then have "rev (rev xs) = rev (takeWhile P (rev xs) @ dropWhile P (rev xs))"
    by (rule arg_cong)
  then show ?thesis by (simp only: rev_rev_ident rev_append)
qed

lemma strip_decompose:
  "\<exists>a b. s = a @ strip s @ b \<and> list_all isspace a \<and> list_all isspace b"
proof -
  let ?t = "dropWhile isspace s"
  let ?a = "takeWhile isspace s"
  let ?b = "rev (takeWhile isspace (rev ?t))"
  have t: "?t = strip s @ ?b"
    unfolding strip_def by (rule rev_dropWhile_takeWhile)
  have "s = ?a @ ?t" by simp
  with t have "s = ?a @ strip s @ ?b" by simp
  moreover have "list_all isspace ?a" by (simp add: list_all_iff) (meson set_takeWhileD)
  moreover have "list_all isspace ?b" by (simp add: list_all_iff) (meson set_takeWhileD)
  ultimately show ?thesis by blast
qed

lemma strip_ends:
  assumes "strip s \<noteq> []"
  shows "\<not> isspace (hd (strip s)) \<and> \<not> isspace (last (strip s))"
proof -
  let ?t = "dropWhile isspace s"
  let ?u = "dropWhile isspace (rev ?t)"
  from assms have u: "?u \<noteq> []" by (simp add: strip_def)
  then have last_ok: "\<not> isspace (hd ?u)" by (rule hd_dropWhile)
  from u have l: "last (strip s) = hd ?u" by (simp add: strip_def last_rev)
  have t: "?t = strip s @ rev (takeWhile isspace (rev ?t))"
    unfolding strip_def by (rule rev_dropWhile_takeWhile)
  from t assms have h: "hd (strip s) = hd ?t" by (metis hd_append2)
  from t assms have tne: "?t \<noteq> []" by (metis append_is_Nil_conv)
  from tne have "\<not> isspace (hd ?t)" by (rule hd_dropWhile)
  with h l last_ok show ?thesis by simp
qed

lemma contains_here: "contains sub (sub @ b)"
  using contains_middle [of sub "[]" b] by simp

lemma contains_skip: "contains sub s \<Longrightarrow> contains sub (a @ s)"
  by (auto simp: contains_sublist sublist_append)

lemma bangla_prompt_contains:
  "contains context (bangla_prompt context question) \<and>
   contains question (bangla_prompt context question)"
  unfolding bangla_prompt_def
  by (rule conjI) ((rule contains_here | rule contains_skip)+)

lemma english_prompt_contains:
  "contains context (english_prompt context question) \<and>
   contains question (english_prompt context question)"
  unfolding english_prompt_def
  by (rule conjI) ((rule contains_here | rule contains_skip)+)

lemma deploy_prompt_language:
  "build_prompt (Deploy ben_config) c q = bangla_prompt c q \<and>
   build_prompt (Deploy eng_config) c q = english_prompt c q"
  by (simp add: ben_config_def eng_config_def ascii_def)

lemma build_prompt_contains:
  "contains context (build_prompt m context question) \<and>
   contains question (build_prompt m context question)"
  by (cases m) (simp_all add: bangla_prompt_contains english_prompt_contains)

lemma query_openai_calls:
  "calls (snd (query_openai env prompt w)) = calls w @ [Call_chat_create (completion_request prompt)]"
  by (simp add: query_openai_def Let_def st_def called_def split: sum.splits list.splits option.splits)

lemma query_openai_files:
  "query_openai env prompt w = (a, w') \<Longrightarrow> files w' = files w"
  by (auto simp: query_openai_def Let_def st_def called_def split: sum.splits list.splits option.splits)

lemma scenario_answer_strip: "strip ([32] @ page_two @ [10]) = page_two"
  by (simp add: strip_def page_two_def isspace_def)

text \<open>
  Claim C8. The prompt built from a context and a question contains both. The request that
  \<open>query_openai\<close> submits for it selects the model \<open>gpt-4o\<close>, carries the system instruction
  to answer in Bangla and the prompt as the one user message, and sets the temperature to
  \<open>0.2\<close> and the maximum output length to \<open>500\<close> tokens; exactly one such call is made. When
  the service returns a first choice with content \<open>s\<close>, the result is \<open>s.strip()\<close>: \<open>s\<close> without
  its leading and trailing white space.
\<close>

theorem query_openai_request:
  "contains context (build_prompt m context question) \<and>
   contains question (build_prompt m context question) \<and>
   completion_request (build_prompt m context question) =
     \<lparr>rq_model = ascii ''gpt-4o'',
      rq_messages =
        [\<lparr>msg_role = ascii ''system'',
          msg_content = ascii ''You are a helpful assistant that answers questions in Bangla.''\<rparr>,
         \<lparr>msg_role = ascii ''user'', msg_content = build_prompt m context question\<rparr>],
      rq_temperature = 2 / 10, rq_max_tokens = 500\<rparr> \<and>
   calls (snd (query_openai env (build_prompt m context question) w)) =
     calls w @ [Call_chat_create (completion_request (build_prompt m context question))] \<and>
   (chat_create env (api_key_env w) (completion_request (build_prompt m context question)) =
      Inr (Some s # rest) \<longrightarrow>
    query_openai env (build_prompt m context question) w =
      (Some (strip s),
       called (Call_chat_create (completion_request (build_prompt m context question))) w) \<and>
    (\<exists>a b. s = a @ strip s @ b \<and> list_all isspace a \<and> list_all isspace b) \<and>
    (strip s \<noteq> [] \<longrightarrow> \<not> isspace (hd (strip s)) \<and> \<not> isspace (last (strip s))))"
proof (intro conjI impI)
  show "contains context (build_prompt m context question)"
    and "contains question (build_prompt m context question)"
    using build_prompt_contains [of "context" m question] by simp_all
  show "completion_request (build_prompt m context question) =
     \<lparr>rq_model = ascii ''gpt-4o'',
      rq_messages =
        [\<lparr>msg_role = ascii ''system'',
          msg_content = ascii ''You are a helpful assistant that answers questions in Bangla.''\<rparr>,
         \<lparr>msg_role = ascii ''user'', msg_content = build_prompt m context question\<rparr>],
      rq_temperature = 2 / 10, rq_max_tokens = 500\<rparr>"
    by (simp add: completion_request_def system_instruction_def)
  show "calls (snd (query_openai env (build_prompt m context question) w)) =
     calls w @ [Call_chat_create (completion_request (build_prompt m context question))]"
    by (rule query_openai_calls)
  show "\<exists>a b. s = a @ strip s @ b \<and> list_all isspace a \<and> list_all isspace b"
    by (rule strip_decompose)
next
  assume "chat_create env (api_key_env w) (completion_request (build_prompt m context question)) =
      Inr (Some s # rest)"
  then show "query_openai env (build_prompt m context question) w =
      (Some (strip s),
       called (Call_chat_create (completion_request (build_prompt m context question))) w)"
    by (simp add: query_openai_def Let_def)
next
  assume "strip s \<noteq> []"
  then show "\<not> isspace (hd (strip s))" and "\<not> isspace (last (strip s))"
    using strip_ends [of s] by simp_all
qed


theorem query_openai_request_witness:
  "chat_create scenario_env (api_key_env (fresh_world\<lparr>api_key_env := Some valid_key\<rparr>))
     (completion_request (build_prompt App scenario_text scenario_question)) =
     Inr (Some ([32] @ page_two @ [10]) # []) \<and>
   query_openai scenario_env (build_prompt App scenario_text scenario_question)
     (fresh_world\<lparr>api_key_env := Some valid_key\<rparr>) =
     (Some page_two,
      called (Call_chat_create (completion_request (build_prompt App scenario_text scenario_question)))
        (fresh_world\<lparr>api_key_env := Some valid_key\<rparr>)) \<and>
   page_two \<noteq> [] \<and> \<not> isspace (hd page_two) \<and> \<not> isspace (last page_two)"
proof -
  let ?w = "fresh_world\<lparr>api_key_env := Some valid_key\<rparr>"
  have a: "chat_create scenario_env (api_key_env ?w)
     (completion_request (build_prompt App scenario_text scenario_question)) =
     Inr (Some ([32] @ page_two @ [10]) # [])"
    by (simp add: scenario_env_def)
  have ne: "page_two \<noteq> []" by (simp add: page_two_def)
  from query_openai_request [of scenario_text App scenario_question scenario_env ?w
      "[32] @ page_two @ [10]" "[]"] a ne
  have "query_openai scenario_env (build_prompt App scenario_text scenario_question) ?w =
     (Some page_two,
      called (Call_chat_create (completion_request (build_prompt App scenario_text scenario_question))) ?w)"
    and "\<not> isspace (hd page_two) \<and> \<not> isspace (last page_two)"
    by (simp_all only: scenario_answer_strip simp_thms)
  with a ne show ?thesis by blast
qed

subsection \<open>Failed generation\<close>

lemma ocr_pages_api_key:
  "ocr_pages m env n i images full_text w = (r, w') \<Longrightarrow> api_key_env w' = api_key_env w"
proof (induction images arbitrary: i full_text w)
  case Nil
  then show ?case by simp
next
  case (Cons img images)
  show ?case
  proof (cases "image_to_string env img (tesseract_config m)")
    case (Inr page)
    with Cons.prems have
      "ocr_pages m env n (i + 1) images (full_text @ page @ [10, 10])
         (st (St_progress (i + 1) n) (called (Call_image_to_string i) w)) = (r, w')"
      by (simp add: Let_def)
    from Cons.IH [OF this] show ?thesis by (simp add: st_def called_def)
  next
    case (Inl err)
    with Cons.prems show ?thesis
      by (cases err) (auto simp: Let_def called_def)
  qed
qed

lemma extract_text_api_key:
  "extract_text_from_pdf m env pdf_path w = (r, w') \<Longrightarrow> api_key_env w' = api_key_env w"
  unfolding extract_text_from_pdf_def Let_def
  by (auto simp: st_def called_def split: sum.splits prod.splits abort.splits
      dest!: ocr_pages_api_key)

lemma process_pdf_api_key:
  assumes "process_pdf m env p w = (r, w')"
  shows "api_key_env w' = api_key_env w"
proof (cases "map_of (files w) (cache_path p)")
  case (Some f)
  with assms show ?thesis by (auto simp: process_pdf_def)
next
  case None
  obtain r1 w1 where ex: "extract_text_from_pdf m env p w = (r1, w1)"
    by (cases "extract_text_from_pdf m env p w")
  have k: "api_key_env w1 = api_key_env w" using ex by (rule extract_text_api_key)
  from assms None ex k show ?thesis
    by (auto simp: process_pdf_def Let_def called_def split: sum.splits)
qed

lemma process_pdf_stored:
  assumes "process_pdf m env p w = (Inr doc, w')"
  shows "map_of (files w') (cache_path p) = Some (Pickle doc)"
proof (cases "map_of (files w) (cache_path p)")
  case (Some f)
  with assms have "w' = w" and "f = Pickle doc"
    by (cases f; simp add: process_pdf_def)+
  with Some show ?thesis by simp
next
  case None
  with process_pdf_files [OF assms] show ?thesis by (simp add: update_Some_unfold)
qed

lemma sidebar_files: "files (sidebar_configuration key w) = files w"
  by (simp add: sidebar_configuration_def st_def Let_def)

lemma wrong_key_rejected:
  "wrong_key \<noteq> [] \<and> chat_create scenario_env (Some wrong_key) rq = Inl invalid_key_error"
  by (simp add: scenario_env_def wrong_key_def valid_key_def ascii_def)

lemma scenario_retrieve:
  "retrieve_context scenario_env [scenario_text] \<lparr>ix_d = 2, ix_xb = [[33, 1]]\<rparr> scenario_question =
     Inr (join [10, 10] [scenario_text, scenario_text, scenario_text])"
  by (simp add: retrieve_context_def encode_def scenario_env_def scenario_question_def
      search_single search_row_def knn_def ntotal_def fvec_L2sqr_ref_def f32_exact Let_def getitem_def
      numeral_3_eq_3)

text \<open>
  Claim C7. Let a run of the main script have its document ready, with a question and a key
  given, and let the completion call fail with an exception of text \<open>e\<close> (a service error, a
  rejected credential, a timeout). Then the run ends without exception and with
  no answer: after the document's output the screen shows only the heading of the query
  interface, \<open>OpenAI Error: e\<close> and the footer. The files are those left by \<open>process_pdf\<close>, the cache
  holds the document's pair, and the next run, whatever the services and the key, gets the
  same pair from \<open>process_pdf\<close> with no further effect. With no key typed in, the query
  interface does nothing: no answer, no exception, the world as it is.
\<close>

theorem generation_failure_keeps_document:
  "(question \<noteq> [] \<and> key \<noteq> [] \<and>
   process_pdf m env PDF_PATH (sidebar_configuration key w) = (Inr (chunks, ix), w1) \<and>
   retrieve_context env chunks ix question = Inr context \<and>
   chat_create env (Some key) (completion_request (build_prompt m context question)) = Inl e \<longrightarrow>
   (\<exists>w'. main m env key question w = (Inr None, w') \<and>
      screen w' =
        screen (footer (st (St_error (ascii ''OpenAI Error: '' @ e))
          (st (St_subheader (ascii ''Ask questions about the document'')) w1))) \<and>
      files w' = files w1 \<and>
      map_of (files w') (cache_path PDF_PATH) = Some (Pickle (chunks, ix)) \<and>
      (\<forall>env2 key2.
         process_pdf m env2 PDF_PATH (sidebar_configuration key2 w') =
           (Inr (chunks, ix), sidebar_configuration key2 w')))) \<and>
   query_interface m env chunks ix question [] w = (Inr None, w)"
proof (rule conjI)
  show "question \<noteq> [] \<and> key \<noteq> [] \<and>
   process_pdf m env PDF_PATH (sidebar_configuration key w) = (Inr (chunks, ix), w1) \<and>
   retrieve_context env chunks ix question = Inr context \<and>
   chat_create env (Some key) (completion_request (build_prompt m context question)) = Inl e \<longrightarrow>
   (\<exists>w'. main m env key question w = (Inr None, w') \<and>
      screen w' =
        screen (footer (st (St_error (ascii ''OpenAI Error: '' @ e))
          (st (St_subheader (ascii ''Ask questions about the document'')) w1))) \<and>
      files w' = files w1 \<and>
      map_of (files w') (cache_path PDF_PATH) = Some (Pickle (chunks, ix)) \<and>
      (\<forall>env2 key2.
         process_pdf m env2 PDF_PATH (sidebar_configuration key2 w') =
           (Inr (chunks, ix), sidebar_configuration key2 w')))"
  proof
    assume h: "question \<noteq> [] \<and> key \<noteq> [] \<and>
     process_pdf m env PDF_PATH (sidebar_configuration key w) = (Inr (chunks, ix), w1) \<and>
     retrieve_context env chunks ix question = Inr context \<and>
     chat_create env (Some key) (completion_request (build_prompt m context question)) = Inl e"
    then have q: "question \<noteq> []" and k: "key \<noteq> []"
      and run: "process_pdf m env PDF_PATH (sidebar_configuration key w) = (Inr (chunks, ix), w1)"
      and ctx: "retrieve_context env chunks ix question = Inr context"
      and fail: "chat_create env (Some key) (completion_request (build_prompt m context question)) = Inl e"
      by simp_all
    from process_pdf_api_key [OF run] k have key1: "api_key_env w1 = Some key"
      by (simp add: sidebar_configuration_def Let_def st_def)
    from process_pdf_stored [OF run]
    have stored: "map_of (files w1) (cache_path PDF_PATH) = Some (Pickle (chunks, ix))" .
    let ?w2 = "called (Call_search 3) (called (Call_encode [question])
        (st (St_subheader (ascii ''Ask questions about the document'')) w1))"
    let ?w' = "st (St_error (ascii ''OpenAI Error: '' @ e))
        (called (Call_chat_create (completion_request (build_prompt m context question))) ?w2)"
    from key1 fail have qo: "query_openai env (build_prompt m context question) ?w2 = (None, ?w')"
      by (simp add: query_openai_def Let_def st_def called_def)
    from q k run ctx qo have m: "main m env key question w = (Inr None, footer ?w')"
      by (simp add: main_def query_interface_def Let_def)
    have scr: "screen (footer ?w') =
          screen (footer (st (St_error (ascii ''OpenAI Error: '' @ e))
            (st (St_subheader (ascii ''Ask questions about the document'')) w1)))"
      by (simp add: st_def called_def footer_def)
    have fl: "files (footer ?w') = files w1" by (simp add: st_def called_def footer_def)
    have again: "\<forall>env2 key2.
           process_pdf m env2 PDF_PATH (sidebar_configuration key2 (footer ?w')) =
             (Inr (chunks, ix), sidebar_configuration key2 (footer ?w'))"
    proof (intro allI)
      fix env2 key2
      from stored fl
      have "map_of (files (sidebar_configuration key2 (footer ?w'))) (cache_path PDF_PATH) =
          Some (Pickle (chunks, ix))"
        by (simp only: sidebar_files)
      then show "process_pdf m env2 PDF_PATH (sidebar_configuration key2 (footer ?w')) =
             (Inr (chunks, ix), sidebar_configuration key2 (footer ?w'))"
        by (simp add: process_pdf_hit)
    qed
    from m scr fl stored again
    show "\<exists>w'. main m env key question w = (Inr None, w') \<and>
        screen w' =
          screen (footer (st (St_error (ascii ''OpenAI Error: '' @ e))
            (st (St_subheader (ascii ''Ask questions about the document'')) w1))) \<and>
        files w' = files w1 \<and>
        map_of (files w') (cache_path PDF_PATH) = Some (Pickle (chunks, ix)) \<and>
        (\<forall>env2 key2.
           process_pdf m env2 PDF_PATH (sidebar_configuration key2 w') =
             (Inr (chunks, ix), sidebar_configuration key2 w'))"
      by (intro exI [of _ "footer ?w'"] conjI) simp_all
  qed
  show "query_interface m env chunks ix question [] w = (Inr None, w)"
    by (simp add: query_interface_def)
qed

theorem generation_failure_keeps_document_witness:
  "scenario_question \<noteq> [] \<and> wrong_key \<noteq> [] \<and>
   retrieve_context scenario_env [scenario_text] \<lparr>ix_d = 2, ix_xb = [[33, 1]]\<rparr> scenario_question =
     Inr (join [10, 10] [scenario_text, scenario_text, scenario_text]) \<and>
   chat_create scenario_env (Some wrong_key)
     (completion_request
        (build_prompt App (join [10, 10] [scenario_text, scenario_text, scenario_text])
           scenario_question)) = Inl invalid_key_error \<and>
   (\<exists>w1 w'. process_pdf App scenario_env PDF_PATH (sidebar_configuration wrong_key fresh_world) =
        (Inr ([scenario_text], \<lparr>ix_d = 2, ix_xb = [[33, 1]]\<rparr>), w1) \<and>
      main App scenario_env wrong_key scenario_question fresh_world = (Inr None, w') \<and>
      screen w' =
        screen (footer (st (St_error (ascii ''OpenAI Error: '' @ invalid_key_error))
          (st (St_subheader (ascii ''Ask questions about the document'')) w1))) \<and>
      map_of (files w') (cache_path PDF_PATH) =
        Some (Pickle ([scenario_text], \<lparr>ix_d = 2, ix_xb = [[33, 1]]\<rparr>)) \<and>
      process_pdf App scenario_env PDF_PATH (sidebar_configuration valid_key w') =
        (Inr ([scenario_text], \<lparr>ix_d = 2, ix_xb = [[33, 1]]\<rparr>), sidebar_configuration valid_key w'))"
proof -
  let ?ix = "\<lparr>ix_d = 2, ix_xb = [[33, 1 :: int]]\<rparr>"
  let ?ctx = "join [10, 10] [scenario_text, scenario_text, scenario_text]"
  have q: "scenario_question \<noteq> []" by (simp add: scenario_question_def)
  have k: "wrong_key \<noteq> []" using wrong_key_rejected by simp
  have fail: "chat_create scenario_env (Some wrong_key)
     (completion_request (build_prompt App ?ctx scenario_question)) = Inl invalid_key_error"
    using wrong_key_rejected by simp
  have miss: "map_of (files (sidebar_configuration wrong_key fresh_world)) (cache_path PDF_PATH) = None"
    by (simp add: sidebar_files fresh_world_def)
  obtain w1 where run: "process_pdf App scenario_env PDF_PATH
      (sidebar_configuration wrong_key fresh_world) = (Inr ([scenario_text], ?ix), w1)"
    using scenario_process [OF miss, of App] by (simp add: scenario_doc_def)
  from generation_failure_keeps_document [of scenario_question wrong_key App scenario_env
      fresh_world "[scenario_text]" ?ix w1 ?ctx invalid_key_error]
    q k run scenario_retrieve fail
  obtain w' where
    m: "main App scenario_env wrong_key scenario_question fresh_world = (Inr None, w')"
    and scr: "screen w' =
        screen (footer (st (St_error (ascii ''OpenAI Error: '' @ invalid_key_error))
          (st (St_subheader (ascii ''Ask questions about the document'')) w1)))"
    and stored: "map_of (files w') (cache_path PDF_PATH) = Some (Pickle ([scenario_text], ?ix))"
    and again: "\<forall>(env2 :: (nat, int) env) key2.
         process_pdf App env2 PDF_PATH (sidebar_configuration key2 w') =
           (Inr ([scenario_text], ?ix), sidebar_configuration key2 w')"
    by blast
  from again have next_run: "process_pdf App scenario_env PDF_PATH (sidebar_configuration valid_key w') =
        (Inr ([scenario_text], ?ix), sidebar_configuration valid_key w')"
    by blast
  from q k scenario_retrieve fail run m scr stored next_run show ?thesis by blast
qed

end
